theory Spec2Isabelle
  imports Complex_Main
begin

section \<open>The rule-based fallback classifier\<close>

text \<open>
  \<^verbatim>\<open>fallbackParse\<close> is a private method of \<^verbatim>\<open>GeminiModel\<close> (src/models/gemini.ts) and,
  with the same body, of \<^verbatim>\<open>GeminiClient\<close> (src/infra/gemini.ts). A JavaScript string is a
  sequence of UTF-16 code units; the texts modelled here are those over ISO-8859-1 (code
  units 0 to 255), one \<^typ>\<open>char\<close> per code unit. All keywords of the source lie in
  that range.
\<close>

text \<open>\<^verbatim>\<open>IncidentType\<close>, as the types file declares it (in the sources it follows
  src/services/weather.ts, after the separator): eleven values, which are also those of the
  \<^verbatim>\<open>CHECK\<close> on \<^verbatim>\<open>incidents.type\<close> in the schema.\<close>

datatype IncidentType =
  accident | police_control | flooding | traffic_jam | road_damage | road_works
  | hazard | protest | roadblock | sos | other

record ParsedIncident =
  type :: IncidentType
  severity :: int
  description :: string
  locationHint :: "string option"
  isEmergency :: bool
  confidence :: real

text \<open>Code units with a lower-case form in the range: A-Z and the accented capitals
  0xC0-0xDE (0xD7, the multiplication sign, apart).\<close>

definition upper_code :: "nat \<Rightarrow> bool" where
  "upper_code n = ((65 \<le> n \<and> n \<le> 90) \<or> (192 \<le> n \<and> n \<le> 222 \<and> n \<noteq> 215))"

text \<open>Code units with an upper-case form in the range: a-z and the accented small letters
  0xE0-0xFE (0xF7, the division sign, apart).\<close>

definition cased_code :: "nat \<Rightarrow> bool" where
  "cased_code n = ((97 \<le> n \<and> n \<le> 122) \<or> (224 \<le> n \<and> n \<le> 254 \<and> n \<noteq> 247))"

text \<open>\<^verbatim>\<open>\w\<close> without the \<^verbatim>\<open>u\<close> flag: the digits, the ASCII letters and the underscore.\<close>

definition word_code :: "nat \<Rightarrow> bool" where
  "word_code n =
     ((48 \<le> n \<and> n \<le> 57) \<or> (65 \<le> n \<and> n \<le> 90) \<or> n = 95 \<or> (97 \<le> n \<and> n \<le> 122))"

text \<open>\<^verbatim>\<open>String.prototype.toLowerCase\<close>, code unit by code unit.\<close>

definition toLowerCase_char :: "char \<Rightarrow> char" where
  "toLowerCase_char c = (if upper_code (of_char c) then char_of (of_char c + 32 :: nat) else c)"

definition toLowerCase :: "string \<Rightarrow> string" where
  "toLowerCase s = map toLowerCase_char s"

text \<open>The \<^verbatim>\<open>i\<close> flag compares characters after \<^verbatim>\<open>Canonicalize\<close>, the upper-case form
  of a code unit when that is one code unit and does not move a non-ASCII unit into ASCII.
  The upper-case forms of 0xB5 and 0xFF lie beyond 0xFF and are the form of no other code
  unit of this range, and 0xDF has a two-unit form: the three stand for themselves.\<close>

definition canonicalize :: "char \<Rightarrow> char" where
  "canonicalize c = (if cased_code (of_char c) then char_of (of_char c - 32 :: nat) else c)"

definition is_word_char :: "char \<Rightarrow> bool" where
  "is_word_char c = word_code (of_char c)"

text \<open>\<^verbatim>\<open>\b\<close> between the character before the position (none at the start) and the rest of
  the subject: exactly one side is a word character.\<close>

definition word_before :: "char option \<Rightarrow> bool" where
  "word_before p = (case p of None \<Rightarrow> False | Some c \<Rightarrow> is_word_char c)"

definition word_here :: "string \<Rightarrow> bool" where
  "word_here s = (case s of [] \<Rightarrow> False | c # _ \<Rightarrow> is_word_char c)"

definition boundary :: "char option \<Rightarrow> string \<Rightarrow> bool" where
  "boundary p s = (word_before p \<noteq> word_here s)"

text \<open>One alternative, a literal, matched at the front of the subject; the result is the
  last character consumed and what is left of the subject.\<close>

fun match_literal :: "string \<Rightarrow> char option \<Rightarrow> string \<Rightarrow> (char option \<times> string) option" where
  "match_literal [] p s = Some (p, s)"
| "match_literal (k # ks) p [] = None"
| "match_literal (k # ks) p (c # cs) =
     (if canonicalize k = canonicalize c then match_literal ks (Some c) cs else None)"

text \<open>The pattern \<^verbatim>\<open>\b(k1|k2|...)\b\<close> at one position.\<close>

definition match_here :: "string list \<Rightarrow> char option \<Rightarrow> string \<Rightarrow> bool" where
  "match_here ks p s =
     (boundary p s \<and>
      list_ex (\<lambda>k. case match_literal k p s of
                      None \<Rightarrow> False
                    | Some (q, rest) \<Rightarrow> boundary q rest) ks)"

text \<open>\<^verbatim>\<open>RegExp.prototype.test\<close>: the pattern is tried at every position, from the left.\<close>

fun regex_scan :: "string list \<Rightarrow> char option \<Rightarrow> string \<Rightarrow> bool" where
  "regex_scan ks p [] = match_here ks p []"
| "regex_scan ks p (c # cs) = (match_here ks p (c # cs) \<or> regex_scan ks (Some c) cs)"

definition regex_test :: "string list \<Rightarrow> string \<Rightarrow> bool" where
  "regex_test ks s = regex_scan ks None s"

text \<open>The alternatives of the ten patterns of \<^verbatim>\<open>fallbackParse\<close>, in the order written.\<close>

definition emergency_keywords :: "string list" where
  "emergency_keywords = [''sos'', ''urgence'', ''emergency'', ''help'', ''au secours'', ''aide'']"

definition accident_keywords :: "string list" where
  "accident_keywords = [''accident'', ''collision'', ''crash'']"

definition police_control_keywords :: "string list" where
  "police_control_keywords =
     [''police'', ''gendarmerie'', ''contr'' @ [char_of (244::nat)] @ ''le'', ''control'',
      ''checkpoint'']"

definition flooding_keywords :: "string list" where
  "flooding_keywords = [''flood'', ''inondation'', ''eau'', ''water'']"

definition traffic_jam_keywords :: "string list" where
  "traffic_jam_keywords = [''embouteillage'', ''bouchon'', ''jam'', ''traffic'', ''congestion'']"

definition road_works_keywords :: "string list" where
  "road_works_keywords = [''travaux'', ''chantier'', ''works'', ''construction'']"

definition hazard_keywords :: "string list" where
  "hazard_keywords =
     [''arbre'', ''d'' @ [char_of (233::nat)] @ ''bris'', ''danger'', ''hazard'', ''fallen'',
      ''tree'']"

definition road_damage_keywords :: "string list" where
  "road_damage_keywords =
     [''route'', ''road'', ''trou'', ''hole'', ''damage'', ''cass'' @ [char_of (233::nat)]]"

definition protest_keywords :: "string list" where
  "protest_keywords =
     [''protest'', ''manifestation'', ''gr'' @ [char_of (232::nat)] @ ''ve'', ''strike'']"

definition roadblock_keywords :: "string list" where
  "roadblock_keywords = [''barrage'', ''roadblock'', ''block'']"

definition fallbackParse :: "string \<Rightarrow> ParsedIncident" where
  "fallbackParse text =
     (let lowerText = toLowerCase text;
          isEmergency = regex_test emergency_keywords lowerText;
          type0 =
            (if regex_test accident_keywords lowerText then accident
             else if regex_test police_control_keywords lowerText then police_control
             else if regex_test flooding_keywords lowerText then flooding
             else if regex_test traffic_jam_keywords lowerText then traffic_jam
             else if regex_test road_works_keywords lowerText then road_works
             else if regex_test hazard_keywords lowerText then hazard
             else if regex_test road_damage_keywords lowerText then road_damage
             else if regex_test protest_keywords lowerText then protest
             else if regex_test roadblock_keywords lowerText then roadblock
             else other);
          type1 = (if isEmergency then sos else type0)
      in \<lparr> type = type1,
           severity = (if isEmergency then 5 else 3),
           description = take 100 text,
           locationHint = None,
           isEmergency = isEmergency,
           confidence = 6 / 10 \<rparr>)"

text \<open>\<^verbatim>\<open>analyzeText\<close>: with no model configured (no API key) the fallback answers. With a
  model, \<^verbatim>\<open>backend\<close> stands for the call, the search for a JSON object in the reply and
  \<^verbatim>\<open>JSON.parse\<close>: it is \<open>None\<close> when the call or the parse throws or the reply holds
  no object, and then the fallback answers too.\<close>

definition analyzeText :: "(string \<Rightarrow> ParsedIncident option) option \<Rightarrow> string \<Rightarrow> ParsedIncident option" where
  "analyzeText model text =
     (case model of
        None \<Rightarrow> Some (fallbackParse text)
      | Some backend \<Rightarrow>
          (case backend text of
             Some parsed \<Rightarrow> Some parsed
           | None \<Rightarrow> Some (fallbackParse text)))"

section \<open>The incident store\<close>

text \<open>
  \<^verbatim>\<open>Coordinates\<close>, \<^verbatim>\<open>IncidentStatus\<close> and \<^verbatim>\<open>Incident\<close> as the types file declares them
  (in the sources it follows src/services/weather.ts, after the separator), with the fields
  that \<^verbatim>\<open>createIncident\<close> writes and \<^verbatim>\<open>mapDbToIncident\<close> reads back; the status
  \<^verbatim>\<open>'false'\<close> is written \<open>false_report\<close>. A \<^verbatim>\<open>Date\<close> is its number of milliseconds
  since the epoch; coordinates are real numbers. A field declared optional, or that a caller
  may leave \<^verbatim>\<open>undefined\<close> (the description in the REST route), is an option.
\<close>

type_synonym timestamp = int

datatype IncidentStatus = pending | verified | expired | false_report

record Coordinates =
  latitude :: real
  longitude :: real

record IncidentData =
  type :: IncidentType
  description :: "string option"
  location :: Coordinates
  address :: "string option"
  severity :: int
  status :: IncidentStatus
  reporterId :: string
  reporterUsername :: "string option"
  confirmations :: int
  mediaUrl :: "string option"
  expiresAt :: timestamp
  createdAt :: timestamp

record Incident = IncidentData +
  id :: string

datatype Vote = confirm | deny

text \<open>The tables of the schema (schema file, \<^verbatim>\<open>CREATE TABLE\<close>), with the columns the code
  touches. \<^verbatim>\<open>users\<close> is keyed by \<^verbatim>\<open>telegram_id\<close>, which is \<^verbatim>\<open>UNIQUE NOT NULL\<close>; a row
  of \<^verbatim>\<open>incidents\<close> is the \<^verbatim>\<open>Incident\<close> that \<^verbatim>\<open>mapDbToIncident\<close> makes of it.\<close>

record Confirmation =
  incident_id :: string
  user_telegram_id :: string
  vote :: Vote

record User =
  trust_score :: int
  reports_count :: int
  accurate_reports :: int

record Database =
  tbl_incidents :: "Incident list"
  tbl_confirmations :: "Confirmation list"
  tbl_users :: "string \<rightharpoonup> User"

text \<open>What the client hands back for one request: the request carried out on the tables,
  an \<^verbatim>\<open>error\<close> object with its code (a constraint of the schema other than the one
  modelled below, a missing function, the network), or an exception.\<close>

datatype reply = Accepted | Rejected string | Thrown

text \<open>\<^verbatim>\<open>.single()\<close>: the row when there is exactly one, else no data.\<close>

fun single :: "'a list \<Rightarrow> 'a option" where
  "single [x] = Some x"
| "single xs = None"

text \<open>\<^verbatim>\<open>v || d\<close> on a number that may be missing: \<^verbatim>\<open>undefined\<close>, \<^verbatim>\<open>null\<close> and 0 give \<open>d\<close>.\<close>

definition or_default :: "int option \<Rightarrow> int \<Rightarrow> int" where
  "or_default v d = (case v of None \<Rightarrow> d | Some n \<Rightarrow> if n = 0 then d else n)"

text \<open>\<^verbatim>\<open>createIncident\<close>: one \<^verbatim>\<open>insert\<close> of the columns listed, and the row read back
  through \<^verbatim>\<open>mapDbToIncident\<close>; the id is drawn by the store (\<^verbatim>\<open>uuid_generate_v4()\<close>).
  An error or an exception gives \<^verbatim>\<open>null\<close>.\<close>

definition inserted_row :: "string \<Rightarrow> IncidentData \<Rightarrow> Incident" where
  "inserted_row new_id incident =
     \<lparr> IncidentData.type = IncidentData.type incident,
       description = IncidentData.description incident,
       location = \<lparr> latitude = latitude (location incident),
                    longitude = longitude (location incident) \<rparr>,
       address = address incident,
       severity = IncidentData.severity incident,
       status = status incident,
       reporterId = reporterId incident,
       reporterUsername = reporterUsername incident,
       confirmations = confirmations incident,
       mediaUrl = mediaUrl incident,
       expiresAt = expiresAt incident,
       createdAt = createdAt incident,
       id = new_id \<rparr>"

definition createIncident :: "reply \<Rightarrow> string \<Rightarrow> Database \<Rightarrow> IncidentData \<Rightarrow> Incident option \<times> Database" where
  "createIncident rp new_id db incident =
     (case rp of
        Thrown \<Rightarrow> (None, db)
      | Rejected code \<Rightarrow> (None, db)
      | Accepted \<Rightarrow>
          (Some (inserted_row new_id incident),
           db\<lparr> tbl_incidents := tbl_incidents db @ [inserted_row new_id incident] \<rparr>))"

text \<open>\<^verbatim>\<open>getNearbyIncidents\<close>: the bounding box of \<^verbatim>\<open>radiusKm / 111\<close> degrees around the
  point, over the pending and verified rows, newest first.\<close>

definition getNearbyIncidents :: "reply \<Rightarrow> Database \<Rightarrow> Coordinates \<Rightarrow> real \<Rightarrow> Incident list" where
  "getNearbyIncidents rp db coords radiusKm =
     (let delta = radiusKm / 111
      in case rp of
           Thrown \<Rightarrow> []
         | Rejected code \<Rightarrow> []
         | Accepted \<Rightarrow>
             sort_key (\<lambda>r. - createdAt r)
               (filter (\<lambda>r. (status r = pending \<or> status r = verified) \<and>
                             latitude coords - delta \<le> latitude (location r) \<and>
                             latitude (location r) \<le> latitude coords + delta \<and>
                             longitude coords - delta \<le> longitude (location r) \<and>
                             longitude (location r) \<le> longitude coords + delta)
                  (tbl_incidents db)))"

text \<open>\<^verbatim>\<open>updateIncidentConfirmations\<close>: a read of the current count (its error is not
  looked at: no data reads as 0), then a write of the new count and of the status that
  follows from it, on the rows with this id.\<close>

definition updateIncidentConfirmations :: "reply \<Rightarrow> reply \<Rightarrow> Database \<Rightarrow> string \<Rightarrow> int \<Rightarrow> bool \<times> Database" where
  "updateIncidentConfirmations rd wr db incidentId delta =
     (case rd of
        Thrown \<Rightarrow> (False, db)
      | _ \<Rightarrow>
          (let current = (case rd of
                            Accepted \<Rightarrow> single (filter (\<lambda>r. id r = incidentId) (tbl_incidents db))
                          | _ \<Rightarrow> None);
               currentConfirmations = or_default (map_option confirmations current) 0;
               newConfirmations = max 0 (currentConfirmations + delta)
           in case wr of
                Thrown \<Rightarrow> (False, db)
              | Rejected code \<Rightarrow> (False, db)
              | Accepted \<Rightarrow>
                  (True, db\<lparr> tbl_incidents :=
                     map (\<lambda>r. if id r = incidentId
                               then r\<lparr> confirmations := newConfirmations,
                                       status := (if newConfirmations \<ge> 2 then verified else pending) \<rparr>
                               else r)
                       (tbl_incidents db) \<rparr>)))"

text \<open>\<^verbatim>\<open>updateUserTrustScore\<close>: a read of the score (no user: \<^verbatim>\<open>false\<close>), then a write
  of the clamped sum.\<close>

definition updateUserTrustScore :: "reply \<Rightarrow> reply \<Rightarrow> Database \<Rightarrow> string \<Rightarrow> int \<Rightarrow> bool \<times> Database" where
  "updateUserTrustScore rd wr db telegramId delta =
     (case rd of
        Thrown \<Rightarrow> (False, db)
      | _ \<Rightarrow>
          (case (case rd of Accepted \<Rightarrow> tbl_users db telegramId | _ \<Rightarrow> None) of
             None \<Rightarrow> (False, db)
           | Some user \<Rightarrow>
               (let newScore = max 0 (min 100 (trust_score user + delta))
                in case wr of
                     Thrown \<Rightarrow> (False, db)
                   | Rejected code \<Rightarrow> (False, db)
                   | Accepted \<Rightarrow>
                       (True, db\<lparr> tbl_users :=
                          (tbl_users db)(telegramId \<mapsto> user\<lparr> trust_score := newScore \<rparr>) \<rparr>))))"

text \<open>\<^verbatim>\<open>incrementUserReports\<close>: the stored procedure \<^verbatim>\<open>increment_reports\<close> of the schema
  (one \<^verbatim>\<open>UPDATE\<close> of the user's row, nothing when there is none); when the call comes back
  with an error, a read and a write by hand, whose own error is not looked at.\<close>

definition increment_reports :: "Database \<Rightarrow> string \<Rightarrow> Database" where
  "increment_reports db telegram_id =
     (case tbl_users db telegram_id of
        None \<Rightarrow> db
      | Some user \<Rightarrow>
          db\<lparr> tbl_users :=
            (tbl_users db)(telegram_id \<mapsto> user\<lparr> reports_count := reports_count user + 1 \<rparr>) \<rparr>)"

definition incrementUserReports :: "reply \<Rightarrow> reply \<Rightarrow> reply \<Rightarrow> Database \<Rightarrow> string \<Rightarrow> bool \<times> Database" where
  "incrementUserReports rpc rd wr db telegramId =
     (case rpc of
        Thrown \<Rightarrow> (False, db)
      | Accepted \<Rightarrow> (True, increment_reports db telegramId)
      | Rejected code \<Rightarrow>
          (case rd of
             Thrown \<Rightarrow> (False, db)
           | Rejected code' \<Rightarrow> (True, db)
           | Accepted \<Rightarrow>
               (case tbl_users db telegramId of
                  None \<Rightarrow> (True, db)
                | Some user \<Rightarrow>
                    (case wr of
                       Thrown \<Rightarrow> (False, db)
                     | Rejected code' \<Rightarrow> (True, db)
                     | Accepted \<Rightarrow>
                         (True, db\<lparr> tbl_users :=
                            (tbl_users db)(telegramId \<mapsto>
                               user\<lparr> reports_count := reports_count user + 1 \<rparr>) \<rparr>)))))"

text \<open>The \<^verbatim>\<open>insert\<close> into \<^verbatim>\<open>confirmations\<close>, with the table's
  \<^verbatim>\<open>UNIQUE(incident_id, user_telegram_id)\<close>: a second row for a pair is refused with
  Postgres code 23505.\<close>

datatype store_error = PostgrestError string | ClientException

definition insert_confirmation :: "reply \<Rightarrow> Database \<Rightarrow> Confirmation \<Rightarrow> store_error + Database" where
  "insert_confirmation rp db row =
     (case rp of
        Thrown \<Rightarrow> Inl ClientException
      | Rejected code \<Rightarrow> Inl (PostgrestError code)
      | Accepted \<Rightarrow>
          (if list_ex (\<lambda>r. incident_id r = incident_id row \<and>
                            user_telegram_id r = user_telegram_id row) (tbl_confirmations db)
           then Inl (PostgrestError ''23505'')
           else Inr (db\<lparr> tbl_confirmations := tbl_confirmations db @ [row] \<rparr>)))"

definition addConfirmation :: "reply \<Rightarrow> Database \<Rightarrow> string \<Rightarrow> string \<Rightarrow> Vote \<Rightarrow> bool \<times> Database" where
  "addConfirmation rp db incidentId userTelegramId v =
     (case insert_confirmation rp db
             \<lparr> incident_id = incidentId, user_telegram_id = userTelegramId, vote = v \<rparr> of
        Inl ClientException \<Rightarrow> (False, db)
      | Inl (PostgrestError code) \<Rightarrow> (if code = ''23505'' then (False, db) else (False, db))
      | Inr db' \<Rightarrow> (True, db'))"

text \<open>Any number of calls, one after the other.\<close>

fun addConfirmations :: "Database \<Rightarrow> (reply \<times> string \<times> string \<times> Vote) list \<Rightarrow> Database" where
  "addConfirmations db [] = db"
| "addConfirmations db ((rp, incidentId, userTelegramId, v) # calls) =
     addConfirmations (snd (addConfirmation rp db incidentId userTelegramId v)) calls"

definition votes_of :: "Database \<Rightarrow> string \<Rightarrow> string \<Rightarrow> Confirmation list" where
  "votes_of db incidentId userTelegramId =
     filter (\<lambda>r. incident_id r = incidentId \<and> user_telegram_id r = userTelegramId)
       (tbl_confirmations db)"

definition vote_keys :: "Database \<Rightarrow> (string \<times> string) list" where
  "vote_keys db = map (\<lambda>r. (incident_id r, user_telegram_id r)) (tbl_confirmations db)"

section \<open>The report intake of the Telegram service\<close>

text \<open>The in-memory maps of the service, keyed by the user's id, and the store.\<close>

text \<open>\<^verbatim>\<open>PendingReport\<close> as the types file declares it, with the fields the service sets
  and reads and its three steps.\<close>

datatype ReportStep = awaiting_description | awaiting_location | complete

record PendingReport =
  userId :: string
  type :: IncidentType
  description :: "string option"
  severity :: "int option"
  mediaUrl :: "string option"
  step :: ReportStep
  createdAt :: timestamp

datatype RouteStep = origin_step | destination_step

record RouteRequest =
  origin :: "Coordinates option"
  destination :: "Coordinates option"
  step :: RouteStep

datatype FuelStep = fuel_awaiting_location | fuel_awaiting_price

record FuelRequest =
  step :: FuelStep
  stationId :: "string option"

datatype AdminStep = broadcast_message

record BotState =
  pendingReports :: "string \<rightharpoonup> PendingReport"
  pendingRoutes :: "string \<rightharpoonup> RouteRequest"
  pendingFuel :: "string \<rightharpoonup> FuelRequest"
  adminStates :: "string \<rightharpoonup> AdminStep"
  store :: Database

text \<open>What one run of a handler takes from outside: the two readings of the clock, in the
  order the handler makes them, the id the store draws, the store's replies, the channel
  of the configuration and whether the message to it goes through.\<close>

record World =
  clock1 :: timestamp
  clock2 :: timestamp
  new_id :: string
  insert_reply :: reply
  rpc_reply :: reply
  select_reply :: reply
  update_reply :: reply
  nearby_reply :: reply
  channelId :: "string option"
  send_ok :: bool

text \<open>What a handler sends: the answer to a nearby lookup, the acknowledgement of a report
  (\<^verbatim>\<open>MESSAGES.reportReceived\<close>, whose text in each language announces "+3 Trust pts"),
  the message to the channel (with its critical mark), the prompts of the route and fuel
  flows, the answer to a vote, the answers to the button \<^verbatim>\<open>admin_broadcast\<close>.\<close>

datatype Effect =
  NearbyIncidents "Incident list"
  | ReportReceived
  | ChannelMessage Incident bool
  | RoutePrompt
  | RouteAnswer "Coordinates option" Coordinates
  | FuelStations Coordinates
  | VoteReply bool
  | BroadcastHint
  | AccessDenied
  | BroadcastRequest

datatype Exit = Returned | Threw

definition showNearbyIncidents :: "World \<Rightarrow> BotState \<Rightarrow> Coordinates \<Rightarrow> Effect list" where
  "showNearbyIncidents w st loc =
     [NearbyIncidents (getNearbyIncidents (nearby_reply w) (store st) loc 5)]"

text \<open>\<^verbatim>\<open>handleLocation\<close>. The payload's \<^verbatim>\<open>expiresAt\<close> is written before its
  \<^verbatim>\<open>createdAt\<close>, so it takes the first reading of the clock. The message to the channel is
  awaited and is the one call here that can throw, before the pending entry is deleted.\<close>

definition incidentData :: "World \<Rightarrow> string \<Rightarrow> PendingReport \<Rightarrow> Coordinates \<Rightarrow> IncidentData" where
  "incidentData w user p loc =
     \<lparr> IncidentData.type = PendingReport.type p,
       description = Some (case PendingReport.description p of None \<Rightarrow> [] | Some d \<Rightarrow> d),
       location = \<lparr> latitude = latitude loc, longitude = longitude loc \<rparr>,
       address = None,
       severity = or_default (PendingReport.severity p) 3,
       status = pending,
       reporterId = user,
       reporterUsername = None,
       confirmations = 0,
       mediaUrl = PendingReport.mediaUrl p,
       expiresAt = clock1 w + 4 * 60 * 60 * 1000,
       createdAt = clock2 w \<rparr>"

definition handleLocation :: "World \<Rightarrow> BotState \<Rightarrow> string \<Rightarrow> Coordinates option \<Rightarrow> BotState \<times> Effect list \<times> Exit" where
  "handleLocation w st user message_location =
     (let pendingReport = pendingReports st user
      in if adminStates st user = Some broadcast_message then (st, [], Returned)
         else if (case pendingReport of
                    None \<Rightarrow> True
                  | Some p \<Rightarrow> PendingReport.step p \<noteq> awaiting_location)
         then (case message_location of
                 Some loc \<Rightarrow> (st, showNearbyIncidents w st loc, Returned)
               | None \<Rightarrow> (st, [], Returned))
         else (case (pendingReport, message_location) of
                 (Some p, Some loc) \<Rightarrow>
                   (let (saved, db1) =
                          createIncident (insert_reply w) (new_id w) (store st)
                            (incidentData w user p loc);
                        (counted, db2) =
                          incrementUserReports (rpc_reply w) (select_reply w) (update_reply w)
                            db1 user;
                        st2 = st\<lparr> store := db2 \<rparr>;
                        cleaned = st2\<lparr> pendingReports := (pendingReports st2)(user := None) \<rparr>
                    in case saved of
                         None \<Rightarrow> (cleaned, [ReportReceived], Returned)
                       | Some inc \<Rightarrow>
                           (if (case channelId w of None \<Rightarrow> False | Some c \<Rightarrow> c \<noteq> [])
                            then (if send_ok w
                                  then (cleaned,
                                        [ReportReceived,
                                         ChannelMessage inc (IncidentData.severity inc \<ge> 4)],
                                        Returned)
                                  else (st2, [ReportReceived], Threw))
                            else (cleaned, [ReportReceived], Returned)))
               | _ \<Rightarrow> (st, [], Returned)))"

text \<open>\<^verbatim>\<open>handleRouteLocation\<close>: the first location is the origin, the second the
  destination, which ends the flow.\<close>

definition handleRouteLocation :: "BotState \<Rightarrow> string \<Rightarrow> Coordinates \<Rightarrow> RouteRequest \<Rightarrow> BotState \<times> Effect list \<times> Exit" where
  "handleRouteLocation st user loc req =
     (case RouteRequest.step req of
        origin_step \<Rightarrow>
          (st\<lparr> pendingRoutes :=
                 (pendingRoutes st)(user \<mapsto> req\<lparr> origin := Some loc,
                                                   RouteRequest.step := destination_step \<rparr>) \<rparr>,
           [RoutePrompt], Returned)
      | destination_step \<Rightarrow>
          (st\<lparr> pendingRoutes := (pendingRoutes st)(user := None) \<rparr>,
           [RouteAnswer (origin req) loc], Returned))"

text \<open>The handler of location messages: a route request comes first, then a fuel request
  waiting for a location, then \<^verbatim>\<open>handleLocation\<close>.\<close>

definition on_location :: "World \<Rightarrow> BotState \<Rightarrow> string \<Rightarrow> Coordinates option \<Rightarrow> BotState \<times> Effect list \<times> Exit" where
  "on_location w st user message_location =
     (case message_location of
        None \<Rightarrow> (st, [], Returned)
      | Some l \<Rightarrow>
          (case pendingRoutes st user of
             Some routeReq \<Rightarrow> handleRouteLocation st user l routeReq
           | None \<Rightarrow>
               (if (case pendingFuel st user of
                      None \<Rightarrow> False
                    | Some fuelReq \<Rightarrow> FuelRequest.step fuelReq = fuel_awaiting_location)
                then (st\<lparr> pendingFuel := (pendingFuel st)(user := None) \<rparr>,
                      [FuelStations \<lparr> latitude = latitude l, longitude = longitude l \<rparr>],
                      Returned)
                else handleLocation w st user (Some l))))"

text \<open>The two vote buttons: \<^verbatim>\<open>addConfirmation\<close> and an answer, nothing else.\<close>

definition on_confirm :: "reply \<Rightarrow> BotState \<Rightarrow> string \<Rightarrow> string \<Rightarrow> BotState \<times> Effect list" where
  "on_confirm rp st incidentId user =
     (let (success, db') = addConfirmation rp (store st) incidentId user confirm
      in (st\<lparr> store := db' \<rparr>, [VoteReply success]))"

definition on_reject :: "reply \<Rightarrow> BotState \<Rightarrow> string \<Rightarrow> string \<Rightarrow> BotState \<times> Effect list" where
  "on_reject rp st incidentId user =
     (let (success, db') = addConfirmation rp (store st) incidentId user deny
      in (st\<lparr> store := db' \<rparr>, [VoteReply success]))"

text \<open>A sequence of presses of the confirm button: the reply of the store, the incident and
  the voter of each.\<close>

fun confirm_votes :: "BotState \<Rightarrow> (reply \<times> string \<times> string) list \<Rightarrow> BotState" where
  "confirm_votes st [] = st"
| "confirm_votes st ((rp, incidentId, user) # votes) =
     confirm_votes (fst (on_confirm rp st incidentId user)) votes"

text \<open>The button \<^verbatim>\<open>admin_broadcast\<close> has two handlers. Telegraf runs the handlers of an
  update in the order of their registration and goes on to the next one only when a handler
  calls \<^verbatim>\<open>next\<close>. The first, registered with the language buttons, answers with a hint
  and does not call it; the second, registered with the fuel buttons, holds the one write
  of \<^verbatim>\<open>adminStates\<close> in the service. The third component of a handler's result says
  whether it called \<^verbatim>\<open>next\<close>; \<open>isAdmin\<close> is what \<^verbatim>\<open>this.isAdmin(userId)\<close> gives.\<close>

definition admin_broadcast_first :: "BotState \<Rightarrow> string \<Rightarrow> BotState \<times> Effect list \<times> bool" where
  "admin_broadcast_first st user = (st, [BroadcastHint], False)"

definition admin_broadcast_second :: "bool \<Rightarrow> BotState \<Rightarrow> string \<Rightarrow> BotState \<times> Effect list \<times> bool" where
  "admin_broadcast_second isAdmin st user =
     (if isAdmin
      then (st\<lparr> adminStates := (adminStates st)(user \<mapsto> broadcast_message) \<rparr>,
            [BroadcastRequest], False)
      else (st, [AccessDenied], False))"

definition on_admin_broadcast :: "bool \<Rightarrow> BotState \<Rightarrow> string \<Rightarrow> BotState \<times> Effect list" where
  "on_admin_broadcast isAdmin st user =
     (let (st1, effects1, next1) = admin_broadcast_first st user
      in if next1
         then (let (st2, effects2, next2) = admin_broadcast_second isAdmin st1 user
               in (st2, effects1 @ effects2))
         else (st1, effects1))"

section \<open>The report route of the REST interface\<close>

text \<open>\<^verbatim>\<open>router.post('/report')\<close>: the fields of the body (an absent one is \<open>None\<close>; a
  \<^verbatim>\<open>type\<close> outside the enumeration is refused by the table's \<^verbatim>\<open>CHECK\<close>, a rejected
  insert). \<^verbatim>\<open>createdAt\<close> is written before \<^verbatim>\<open>expiresAt\<close> here.\<close>

datatype Response = BadRequest | Created string | ServerError

definition post_report ::
  "World \<Rightarrow> Database \<Rightarrow> string option \<Rightarrow> IncidentType option \<Rightarrow> string option \<Rightarrow> real option
     \<Rightarrow> real option \<Rightarrow> int option \<Rightarrow> Response \<times> Database" where
  "post_report w d user ty descr lat lon sev =
     (case (user, ty, lat, lon) of
        (Some u, Some t, Some la, Some lo) \<Rightarrow>
          (if u = [] \<or> la = 0 \<or> lo = 0 then (BadRequest, d)
           else
             (let (incident, d') =
                    createIncident (insert_reply w) (new_id w) d
                      \<lparr> IncidentData.type = t,
                        description = descr,
                        location = \<lparr> latitude = la, longitude = lo \<rparr>,
                        address = Some [],
                        severity = or_default sev 3,
                        status = pending,
                        reporterId = u,
                        reporterUsername = Some ''native_app_user'',
                        confirmations = 0,
                        mediaUrl = None,
                        expiresAt = clock2 w + 60 * 60 * 1000,
                        createdAt = clock1 w \<rparr>
              in case incident of
                   Some inc \<Rightarrow> (Created (id inc), d')
                 | None \<Rightarrow> (ServerError, d')))
      | _ \<Rightarrow> (BadRequest, d))"

section \<open>The properties, stated\<close>

text \<open>A location message from this user reaches the step that finalises a report: the user
  is not composing a broadcast and has a pending report waiting for its location.\<close>

definition finalizes :: "BotState \<Rightarrow> string \<Rightarrow> PendingReport \<Rightarrow> bool" where
  "finalizes st user p =
     (adminStates st user \<noteq> Some broadcast_message \<and> pendingReports st user = Some p \<and>
      PendingReport.step p = awaiting_location)"

definition score_in_range :: "User \<Rightarrow> bool" where
  "score_in_range u = (0 \<le> trust_score u \<and> trust_score u \<le> 100)"

text \<open>The states of the service. It starts with its four maps empty, on whatever the store
  holds. The handlers written out above take it from state to state; so does everything
  else (the commands, the text, voice and photo handlers, the other buttons, the
  scheduler), which writes the three pending maps and the store only: the service names
  \<^verbatim>\<open>adminStates\<close> three times, in its declaration, in the second handler of
  \<^verbatim>\<open>admin_broadcast\<close> and in the test at the head of \<^verbatim>\<open>handleLocation\<close>.\<close>

inductive reachable :: "BotState \<Rightarrow> bool" where
  start:
    "reachable \<lparr> pendingReports = Map.empty, pendingRoutes = Map.empty, pendingFuel = Map.empty,
                 adminStates = Map.empty, store = d \<rparr>"
| location_message:
    "reachable st \<Longrightarrow> reachable (fst (on_location w st user message_location))"
| confirm_button:
    "reachable st \<Longrightarrow> reachable (fst (on_confirm rp st incidentId user))"
| reject_button:
    "reachable st \<Longrightarrow> reachable (fst (on_reject rp st incidentId user))"
| admin_broadcast_button:
    "reachable st \<Longrightarrow> reachable (fst (on_admin_broadcast isAdmin st user))"
| elsewhere:
    "reachable st \<Longrightarrow>
       reachable (st\<lparr> pendingReports := reports, pendingRoutes := routes, pendingFuel := fuel,
                      store := d \<rparr>)"

text \<open>The keyword of the road damage rule that ends in an accented letter.\<close>

definition casse :: string where
  "casse = ''cass'' @ [char_of (233::nat)]"

text \<open>A keyword occurs in a text as a whole word, whatever the case of its letters: the
  text splits into a part before, the occurrence and a part after, and no word character
  touches the occurrence on either side.\<close>

definition whole_word_occurs :: "string \<Rightarrow> string \<Rightarrow> bool" where
  "whole_word_occurs k text =
     (\<exists>pre m post. text = pre @ m @ post \<and> toLowerCase m = k \<and>
        (pre = [] \<or> \<not> is_word_char (last pre)) \<and>
        (post = [] \<or> \<not> is_word_char (hd post)))"

definition lower_case :: "char \<Rightarrow> bool" where
  "lower_case c = (\<not> upper_code (of_char c))"

text \<open>Keywords for which \<^verbatim>\<open>\b\<close> on both sides means a whole word: lower case, with a
  word character first and last.\<close>

definition wellformed_keywords :: "string list \<Rightarrow> bool" where
  "wellformed_keywords ks =
     list_all (\<lambda>k. k \<noteq> [] \<and> is_word_char (hd k) \<and> is_word_char (last k) \<and>
                 list_all lower_case k) ks"

text \<open>The nine rules in their order, and the type of the first one that matches.\<close>

definition type_rules :: "(string list \<times> IncidentType) list" where
  "type_rules =
     [(accident_keywords, accident), (police_control_keywords, police_control),
      (flooding_keywords, flooding), (traffic_jam_keywords, traffic_jam),
      (road_works_keywords, road_works), (hazard_keywords, hazard),
      (road_damage_keywords, road_damage), (protest_keywords, protest),
      (roadblock_keywords, roadblock)]"

definition first_match :: "(string list \<times> IncidentType) list \<Rightarrow> string \<Rightarrow> IncidentType" where
  "first_match rules s =
     (case find (\<lambda>rule. regex_test (fst rule) s) rules of
        None \<Rightarrow> other
      | Some rule \<Rightarrow> snd rule)"

section \<open>Scenarios\<close>

text \<open>Two users with the initial score, a flooding incident (verified with two
  confirmations, or pending with none), two reporters about to send the location of a
  flooding report three minutes apart, and the state after an admin has pressed the
  broadcast button.\<close>

definition user0 :: User where
  "user0 = \<lparr> trust_score = 50, reports_count = 0, accurate_reports = 0 \<rparr>"

definition db0 :: Database where
  "db0 = \<lparr> tbl_incidents = [], tbl_confirmations = [],
           tbl_users = [''1001'' \<mapsto> user0, ''1002'' \<mapsto> user0] \<rparr>"

definition flood1 :: Incident where
  "flood1 = \<lparr> IncidentData.type = flooding, description = Some ''Route inondee'',
              location = \<lparr> latitude = 3.848, longitude = 11.5021 \<rparr>, address = None,
              severity = 3, status = verified, reporterId = ''1001'', reporterUsername = None,
              confirmations = 2, mediaUrl = None, expiresAt = 14400000, createdAt = 0,
              id = ''inc-1'' \<rparr>"

definition db1 :: Database where
  "db1 = db0\<lparr> tbl_incidents := [flood1\<lparr> confirmations := 0, status := pending \<rparr>] \<rparr>"

definition st1 :: BotState where
  "st1 = \<lparr> pendingReports = Map.empty, pendingRoutes = Map.empty, pendingFuel = Map.empty,
           adminStates = Map.empty, store = db1 \<rparr>"

definition loc0 :: Coordinates where
  "loc0 = \<lparr> latitude = 3.848, longitude = 11.5021 \<rparr>"

definition flood_report :: "string \<Rightarrow> PendingReport" where
  "flood_report u = \<lparr> userId = u, PendingReport.type = flooding,
                       description = Some ''Route inondee'', severity = None, mediaUrl = None,
                       step = awaiting_location, createdAt = 0 \<rparr>"

definition st0 :: BotState where
  "st0 = \<lparr> pendingReports = [''1001'' \<mapsto> flood_report ''1001'', ''1002'' \<mapsto> flood_report ''1002''],
           pendingRoutes = Map.empty, pendingFuel = Map.empty, adminStates = Map.empty,
           store = db0 \<rparr>"

definition world1 :: World where
  "world1 = \<lparr> clock1 = 1000000, clock2 = 1000000, new_id = ''inc-1'', insert_reply = Accepted,
              rpc_reply = Accepted, select_reply = Accepted, update_reply = Accepted,
              nearby_reply = Accepted, channelId = None, send_ok = True \<rparr>"

definition world2 :: World where
  "world2 = world1\<lparr> clock1 := 1180000, clock2 := 1180000, new_id := ''inc-2'' \<rparr>"

definition st_one :: BotState where
  "st_one = fst (handleLocation world1 st0 ''1001'' (Some loc0))"

definition st_two :: BotState where
  "st_two = fst (handleLocation world2 st_one ''1002'' (Some loc0))"

definition st_pressed :: BotState where
  "st_pressed = fst (on_admin_broadcast True st1 ''9001'')"

definition db_verified :: Database where
  "db_verified = db0\<lparr> tbl_incidents := [flood1] \<rparr>"

section \<open>The classifier: lemmas and theorems\<close>

lemma cased_code_shift: "cased_code n \<Longrightarrow> upper_code (n - 32)"
  unfolding upper_code_def cased_code_def by arith

lemma upper_code_shift: "upper_code n \<Longrightarrow> \<not> upper_code (n + 32)"
  unfolding upper_code_def by arith

lemma upper_code_less: "upper_code n \<Longrightarrow> n + 32 < 256"
  unfolding upper_code_def by arith

lemma cased_ge: "cased_code n \<Longrightarrow> 32 \<le> n"
  unfolding cased_code_def by arith

lemma word_code_shift: "upper_code n \<Longrightarrow> word_code (n + 32) = word_code n"
  unfolding upper_code_def word_code_def by arith

lemma canon_code_inj:
  assumes "\<not> upper_code n" "\<not> upper_code m"
    and "(if cased_code n then n - 32 else n) = (if cased_code m then m - 32 else m)"
  shows "n = m"
proof (cases "cased_code n")
  case n: True
  show ?thesis
  proof (cases "cased_code m")
    case True
    with n assms(3) cased_ge [of n] cased_ge [of m] show ?thesis by simp
  next
    case False
    with n assms(3) have "m = n - 32" by simp
    with cased_code_shift [OF n] assms(2) show ?thesis by simp
  qed
next
  case n: False
  show ?thesis
  proof (cases "cased_code m")
    case True
    with n assms(3) have "n = m - 32" by simp
    with cased_code_shift [OF True] assms(1) show ?thesis by simp
  next
    case False
    with n assms(3) show ?thesis by simp
  qed
qed

lemma of_char_toLowerCase_char:
  "(of_char (toLowerCase_char c) :: nat) =
     (if upper_code (of_char c) then of_char c + 32 else of_char c)"
  by (simp add: toLowerCase_char_def upper_code_less)

lemma of_char_canonicalize:
  "(of_char (canonicalize c) :: nat) =
     (if cased_code (of_char c) then of_char c - 32 else of_char c)"
proof -
  have "(of_char c :: nat) - 32 < 256"
    using nat_of_char_less_256 [of c] by arith
  then show ?thesis
    by (simp add: canonicalize_def)
qed

lemma lower_case_toLowerCase_char: "lower_case (toLowerCase_char c)"
  by (simp add: lower_case_def of_char_toLowerCase_char upper_code_shift)

lemma is_word_char_toLowerCase_char: "is_word_char (toLowerCase_char c) = is_word_char c"
  by (simp add: is_word_char_def of_char_toLowerCase_char word_code_shift)

lemma canonicalize_inj_lower:
  assumes "lower_case x" "lower_case y" "canonicalize x = canonicalize y"
  shows "x = y"
proof -
  have "(of_char (canonicalize x) :: nat) = of_char (canonicalize y)"
    using assms(3) by simp
  then have "(of_char x :: nat) = of_char y"
    using assms(1,2) unfolding lower_case_def of_char_canonicalize
    by (rule canon_code_inj [rotated 2])
  then show ?thesis by simp
qed

lemma match_literal_lower:
  assumes "\<forall>c\<in>set k. lower_case c" "\<forall>c\<in>set s. lower_case c"
  shows "match_literal k p s = Some (q, rest) \<longleftrightarrow>
           s = k @ rest \<and> q = (if k = [] then p else Some (last k))"
  using assms
proof (induction k p s rule: match_literal.induct)
  case (1 p s)
  then show ?case by auto
next
  case (2 k ks p)
  then show ?case by simp
next
  case (3 k ks p c cs)
  show ?case
  proof (cases "canonicalize k = canonicalize c")
    case True
    with 3 have kc: "k = c" by (auto intro: canonicalize_inj_lower)
    with 3 True show ?thesis by auto
  next
    case False
    then have "k \<noteq> c" by auto
    with False show ?thesis by simp
  qed
qed

lemma regex_scan_iff:
  "regex_scan ks p s \<longleftrightarrow>
     (\<exists>pre suf. s = pre @ suf \<and> match_here ks (if pre = [] then p else Some (last pre)) suf)"
proof (induction s arbitrary: p)
  case Nil
  then show ?case by simp
next
  case (Cons c cs)
  have "(\<exists>pre suf. c # cs = pre @ suf \<and> match_here ks (if pre = [] then p else Some (last pre)) suf)
        \<longleftrightarrow> match_here ks p (c # cs) \<or>
            (\<exists>pre suf. cs = pre @ suf \<and> match_here ks (if pre = [] then Some c else Some (last pre)) suf)"
    (is "?L \<longleftrightarrow> ?A \<or> ?B")
  proof
    assume ?L
    then obtain pre suf where ps: "c # cs = pre @ suf"
      and m: "match_here ks (if pre = [] then p else Some (last pre)) suf" by blast
    show "?A \<or> ?B"
    proof (cases pre)
      case Nil
      with ps m show ?thesis by simp
    next
      case (Cons a pre')
      with ps have "cs = pre' @ suf" "a = c" by simp_all
      moreover from m Cons \<open>a = c\<close>
      have "match_here ks (if pre' = [] then Some c else Some (last pre')) suf"
        by (cases "pre' = []") simp_all
      ultimately show ?thesis by blast
    qed
  next
    assume "?A \<or> ?B"
    then show ?L
    proof
      assume ?A
      then have "c # cs = [] @ (c # cs) \<and> match_here ks (if [] = ([]::string) then p else Some (last [])) (c # cs)"
        by simp
      then show ?L by blast
    next
      assume ?B
      then obtain pre suf where ps: "cs = pre @ suf"
        and m: "match_here ks (if pre = [] then Some c else Some (last pre)) suf" by blast
      then have "c # cs = (c # pre) @ suf \<and>
                 match_here ks (if c # pre = [] then p else Some (last (c # pre))) suf"
        by (cases "pre = []") simp_all
      then show ?L by blast
    qed
  qed
  with Cons.IH [of "Some c"] show ?case by simp
qed

lemma match_here_lower:
  assumes k: "\<forall>k\<in>set ks. k \<noteq> [] \<and> is_word_char (hd k) \<and> is_word_char (last k) \<and>
                 (\<forall>c\<in>set k. lower_case c)"
    and s: "\<forall>c\<in>set s. lower_case c"
  shows "match_here ks p s \<longleftrightarrow>
           (\<exists>k\<in>set ks. \<exists>post. s = k @ post \<and> \<not> word_before p \<and> \<not> word_here post)"
proof -
  have "(case match_literal k p s of None \<Rightarrow> False | Some (q, rest) \<Rightarrow> boundary q rest)
        \<longleftrightarrow> (\<exists>post. s = k @ post \<and> \<not> word_here post)" if kk: "k \<in> set ks" for k
  proof -
    from k kk have k1: "k \<noteq> []" "is_word_char (last k)" "\<forall>c\<in>set k. lower_case c" by auto
    show ?thesis
    proof (cases "match_literal k p s")
      case None
      then have "\<not> (\<exists>post. s = k @ post)"
        using match_literal_lower [OF k1(3) s, of p "Some (last k)"] k1(1) by auto
      with None show ?thesis by auto
    next
      case (Some a)
      obtain q rest where a: "a = (q, rest)" by (cases a)
      with Some match_literal_lower [OF k1(3) s, of p q rest] k1(1)
      have eq: "s = k @ rest" "q = Some (last k)" by auto
      with Some a k1(2) show ?thesis
        by (auto simp add: boundary_def word_before_def)
    qed
  qed
  moreover have "boundary p s \<longleftrightarrow> \<not> word_before p" if "k \<in> set ks" "s = k @ post" for k post
  proof -
    from k that have "k \<noteq> []" "is_word_char (hd k)" by auto
    with that(2) have "word_here s" by (cases k) (auto simp add: word_here_def)
    then show ?thesis by (simp add: boundary_def)
  qed
  ultimately show ?thesis
    unfolding match_here_def list_ex_iff by blast
qed


lemma word_before_prefix:
  "\<not> word_before (if pre = [] then None else Some (last pre)) \<longleftrightarrow>
     (pre = [] \<or> \<not> is_word_char (last pre))"
  by (simp add: word_before_def)

lemma word_here_suffix: "\<not> word_here post \<longleftrightarrow> (post = [] \<or> \<not> is_word_char (hd post))"
  by (cases post) (simp_all add: word_here_def)

lemma regex_test_toLowerCase:
  assumes "wellformed_keywords ks"
  shows "regex_test ks (toLowerCase text) \<longleftrightarrow>
           (\<exists>k\<in>set ks. \<exists>pre post. toLowerCase text = pre @ k @ post \<and>
              (pre = [] \<or> \<not> is_word_char (last pre)) \<and>
              (post = [] \<or> \<not> is_word_char (hd post)))"
proof -
  from assms have k: "\<forall>k\<in>set ks. k \<noteq> [] \<and> is_word_char (hd k) \<and> is_word_char (last k) \<and>
                 (\<forall>c\<in>set k. lower_case c)"
    by (simp add: wellformed_keywords_def list_all_iff)
  have low: "\<forall>c\<in>set (toLowerCase text). lower_case c"
    by (auto simp add: toLowerCase_def lower_case_toLowerCase_char)
  have mh: "match_here ks p suf \<longleftrightarrow>
          (\<exists>k\<in>set ks. \<exists>post. suf = k @ post \<and> \<not> word_before p \<and> \<not> word_here post)"
    if "toLowerCase text = pre @ suf" for pre suf p
  proof (rule match_here_lower [OF k])
    from low that show "\<forall>c\<in>set suf. lower_case c" by simp
  qed
  have "regex_test ks (toLowerCase text) \<longleftrightarrow>
      (\<exists>pre suf. toLowerCase text = pre @ suf \<and>
         match_here ks (if pre = [] then None else Some (last pre)) suf)"
    by (simp only: regex_test_def regex_scan_iff)
  also have "\<dots> \<longleftrightarrow> (\<exists>k\<in>set ks. \<exists>pre post. toLowerCase text = pre @ k @ post \<and>
              (pre = [] \<or> \<not> is_word_char (last pre)) \<and>
              (post = [] \<or> \<not> is_word_char (hd post)))"
    (is "?A \<longleftrightarrow> ?B")
  proof
    assume ?A
    then obtain pre suf where ps: "toLowerCase text = pre @ suf"
      and m: "match_here ks (if pre = [] then None else Some (last pre)) suf" by blast
    from m mh [OF ps] obtain k' post where kp: "k' \<in> set ks" "suf = k' @ post"
      "\<not> word_before (if pre = [] then None else Some (last pre))" "\<not> word_here post"
      by blast
    from kp(3) have "pre = [] \<or> \<not> is_word_char (last pre)"
      by (simp only: word_before_prefix)
    moreover from kp(4) have "post = [] \<or> \<not> is_word_char (hd post)"
      by (simp only: word_here_suffix)
    moreover from ps kp(2) have "toLowerCase text = pre @ k' @ post" by simp
    ultimately show ?B using kp(1) by blast
  next
    assume ?B
    then obtain k' pre post where kp: "k' \<in> set ks" "toLowerCase text = pre @ k' @ post"
      "pre = [] \<or> \<not> is_word_char (last pre)" "post = [] \<or> \<not> is_word_char (hd post)"
      by blast
    from kp(3) have "\<not> word_before (if pre = [] then None else Some (last pre))"
      by (simp only: word_before_prefix)
    moreover from kp(4) have "\<not> word_here post"
      by (simp only: word_here_suffix)
    ultimately have "match_here ks (if pre = [] then None else Some (last pre)) (k' @ post)"
      using mh [OF kp(2)] kp(1) by blast
    with kp(2) show ?A by blast
  qed
  finally show ?thesis .
qed



lemma whole_word_occurs_toLowerCase:
  "whole_word_occurs k text \<longleftrightarrow>
     (\<exists>pre post. toLowerCase text = pre @ k @ post \<and>
        (pre = [] \<or> \<not> is_word_char (last pre)) \<and>
        (post = [] \<or> \<not> is_word_char (hd post)))"
  (is "?L \<longleftrightarrow> ?R")
proof
  assume ?L
  then obtain pre m post where t: "text = pre @ m @ post" "toLowerCase m = k"
    and b: "pre = [] \<or> \<not> is_word_char (last pre)" "post = [] \<or> \<not> is_word_char (hd post)"
    unfolding whole_word_occurs_def by blast
  from t have "toLowerCase text = toLowerCase pre @ k @ toLowerCase post"
    by (simp add: toLowerCase_def)
  moreover from b(1) have "toLowerCase pre = [] \<or> \<not> is_word_char (last (toLowerCase pre))"
    by (auto simp add: toLowerCase_def last_map is_word_char_toLowerCase_char)
  moreover from b(2) have "toLowerCase post = [] \<or> \<not> is_word_char (hd (toLowerCase post))"
    by (auto simp add: toLowerCase_def hd_map is_word_char_toLowerCase_char)
  ultimately show ?R by blast
next
  assume ?R
  then obtain pre post where t: "toLowerCase text = pre @ k @ post"
    and b: "pre = [] \<or> \<not> is_word_char (last pre)" "post = [] \<or> \<not> is_word_char (hd post)"
    by blast
  from t have "map toLowerCase_char text = pre @ (k @ post)"
    by (simp add: toLowerCase_def)
  from iffD1 [OF map_eq_append_conv this]
  obtain pre0 rest0 where r: "text = pre0 @ rest0" "pre = map toLowerCase_char pre0"
      "k @ post = map toLowerCase_char rest0"
    by blast
  from r(3) have "map toLowerCase_char rest0 = k @ post" by simp
  from iffD1 [OF map_eq_append_conv this]
  obtain m post0 where s: "rest0 = m @ post0" "k = map toLowerCase_char m"
      "post = map toLowerCase_char post0"
    by blast
  from b(1) r(2) have "pre0 = [] \<or> \<not> is_word_char (last pre0)"
    by (auto simp add: last_map is_word_char_toLowerCase_char)
  moreover from b(2) s(3) have "post0 = [] \<or> \<not> is_word_char (hd post0)"
    by (auto simp add: hd_map is_word_char_toLowerCase_char)
  ultimately show ?L
    unfolding whole_word_occurs_def toLowerCase_def using r(1) s(1) s(2) [symmetric] by blast
qed

lemma regex_test_whole_word:
  assumes "wellformed_keywords ks"
  shows "regex_test ks (toLowerCase text) \<longleftrightarrow> (\<exists>k\<in>set ks. whole_word_occurs k text)"
  unfolding regex_test_toLowerCase [OF assms] whole_word_occurs_toLowerCase ..



lemma wellformed_emergency_keywords: "wellformed_keywords emergency_keywords"
  by (simp add: wellformed_keywords_def emergency_keywords_def lower_case_def is_word_char_def
      upper_code_def word_code_def)


lemma wellformed_emergency: "regex_test emergency_keywords (toLowerCase text) \<longleftrightarrow>
    (\<exists>k\<in>set emergency_keywords. whole_word_occurs k text)"
  by (rule regex_test_whole_word [OF wellformed_emergency_keywords])

lemma fallbackParse_fields:
  "isEmergency (fallbackParse text) = regex_test emergency_keywords (toLowerCase text)"
  "ParsedIncident.severity (fallbackParse text) =
     (if regex_test emergency_keywords (toLowerCase text) then 5 else 3)"
  "ParsedIncident.description (fallbackParse text) = take 100 text"
  "confidence (fallbackParse text) = 6 / 10"
  "ParsedIncident.type (fallbackParse text) =
     (if regex_test emergency_keywords (toLowerCase text) then sos
      else first_match type_rules (toLowerCase text))"
  by (simp_all add: fallbackParse_def Let_def first_match_def type_rules_def)



lemma fallbackParse_first_match:
  assumes "\<not> (\<exists>k\<in>set emergency_keywords. whole_word_occurs k text)"
  shows "ParsedIncident.type (fallbackParse text) = first_match type_rules (toLowerCase text)
   \<and> map snd type_rules =
       [accident, police_control, flooding, traffic_jam, road_works, hazard, road_damage,
        protest, roadblock]
   \<and> ParsedIncident.severity (fallbackParse text) = 3
   \<and> ParsedIncident.description (fallbackParse text) = take 100 text
   \<and> confidence (fallbackParse text) = 6 / 10
   \<and> \<not> isEmergency (fallbackParse text)
   \<and> analyzeText None ''Accident grave au carrefour Bastos'' =
        Some \<lparr> ParsedIncident.type = accident, severity = 3,
               description = ''Accident grave au carrefour Bastos'',
               locationHint = None, isEmergency = False, confidence = 6 / 10 \<rparr>"
proof -
  have "analyzeText None ''Accident grave au carrefour Bastos'' =
        Some \<lparr> ParsedIncident.type = accident, severity = 3,
               description = ''Accident grave au carrefour Bastos'',
               locationHint = None, isEmergency = False, confidence = 6 / 10 \<rparr>"
    by code_simp
  moreover have "map snd type_rules =
       [accident, police_control, flooding, traffic_jam, road_works, hazard, road_damage,
        protest, roadblock]"
    by (simp add: type_rules_def)
  moreover from assms have "\<not> regex_test emergency_keywords (toLowerCase text)"
    by (simp add: wellformed_emergency)
  ultimately show ?thesis
    by (simp add: fallbackParse_fields)
qed

text \<open>Eight of the nine rules match exactly when one of their keywords occurs as a whole
  word; so do the first five keywords of the road damage rule.\<close>

lemma wellformed_rule_keywords:
  "wellformed_keywords accident_keywords"
  "wellformed_keywords police_control_keywords"
  "wellformed_keywords flooding_keywords"
  "wellformed_keywords traffic_jam_keywords"
  "wellformed_keywords road_works_keywords"
  "wellformed_keywords hazard_keywords"
  "wellformed_keywords protest_keywords"
  "wellformed_keywords roadblock_keywords"
  "wellformed_keywords (butlast road_damage_keywords)"
  by (simp_all add: wellformed_keywords_def accident_keywords_def police_control_keywords_def
      flooding_keywords_def traffic_jam_keywords_def road_works_keywords_def
      hazard_keywords_def protest_keywords_def roadblock_keywords_def road_damage_keywords_def
      lower_case_def is_word_char_def upper_code_def word_code_def)

lemma rules_whole_word:
  assumes "ks \<in> {accident_keywords, police_control_keywords, flooding_keywords,
      traffic_jam_keywords, road_works_keywords, hazard_keywords, protest_keywords,
      roadblock_keywords, butlast road_damage_keywords}"
  shows "regex_test ks (toLowerCase text) \<longleftrightarrow> (\<exists>k\<in>set ks. whole_word_occurs k text)"
proof -
  from assms have "wellformed_keywords ks"
    using wellformed_rule_keywords by auto
  then show ?thesis by (rule regex_test_whole_word)
qed

lemma casse_whole_word: "whole_word_occurs casse (''pont '' @ casse)"
proof -
  have "''pont '' @ casse = ''pont '' @ casse @ []" by simp
  moreover have "toLowerCase casse = casse"
    by (simp add: toLowerCase_def toLowerCase_char_def casse_def upper_code_def)
  moreover have "\<not> is_word_char (last ''pont '')"
    by (simp add: is_word_char_def word_code_def)
  ultimately show ?thesis
    unfolding whole_word_occurs_def by blast
qed

text \<open>
  Claim C6. The text "pont casse", its last letter bearing an acute accent (code unit
  233), holds no emergency keyword and no keyword of the six
  rules before road damage, and it holds the last keyword of the road damage rule as a
  whole word; yet the classifier answers other, where the claim has road damage. The word
  boundary that closes the pattern comes after an accented letter, which is no word
  character for it, and so asks for a letter, a digit or an underscore to follow: the
  same word followed by an e is classified as road damage.
\<close>

theorem fallbackParse_casse:
  "last road_damage_keywords = casse
   \<and> whole_word_occurs casse (''pont '' @ casse)
   \<and> \<not> isEmergency (fallbackParse (''pont '' @ casse))
   \<and> ParsedIncident.type (fallbackParse (''pont '' @ casse)) = other
   \<and> ParsedIncident.severity (fallbackParse (''pont '' @ casse)) = 3
   \<and> ParsedIncident.type (fallbackParse (''pont '' @ casse @ ''e'')) = road_damage
   \<and> ParsedIncident.type (fallbackParse ''pont route'') = road_damage"
proof -
  have "last road_damage_keywords = casse"
    by (simp add: road_damage_keywords_def casse_def)
  moreover have "\<not> isEmergency (fallbackParse (''pont '' @ casse))"
    by code_simp
  moreover have "ParsedIncident.type (fallbackParse (''pont '' @ casse)) = other"
    by code_simp
  moreover have "ParsedIncident.severity (fallbackParse (''pont '' @ casse)) = 3"
    by code_simp
  moreover have "ParsedIncident.type (fallbackParse (''pont '' @ casse @ ''e'')) = road_damage"
    by code_simp
  moreover have "ParsedIncident.type (fallbackParse ''pont route'') = road_damage"
    by code_simp
  ultimately show ?thesis
    using casse_whole_word by blast
qed

theorem fallbackParse_casse_witness:
  "''pont '' @ casse = ''pont '' @ casse @ []
   \<and> toLowerCase casse = casse
   \<and> is_word_char (last ''pont '') = False
   \<and> ParsedIncident.type (fallbackParse (''pont '' @ casse)) = other"
  using fallbackParse_casse
  by (simp add: toLowerCase_def toLowerCase_char_def casse_def upper_code_def is_word_char_def
      word_code_def)

section \<open>The store: lemmas and theorems\<close>

lemma addConfirmation_eq:
  "addConfirmation rp db incidentId user v =
     (if rp = Accepted \<and> (incidentId, user) \<notin> set (vote_keys db)
      then (True, db\<lparr> tbl_confirmations := tbl_confirmations db @
                      [\<lparr> incident_id = incidentId, user_telegram_id = user, vote = v \<rparr>] \<rparr>)
      else (False, db))"
  by (cases rp)
    (auto simp add: addConfirmation_def insert_confirmation_def vote_keys_def list_ex_iff
      image_iff)

lemma vote_keys_addConfirmation:
  "vote_keys (snd (addConfirmation rp db incidentId user v)) =
     (if rp = Accepted \<and> (incidentId, user) \<notin> set (vote_keys db)
      then vote_keys db @ [(incidentId, user)] else vote_keys db)"
  by (simp add: addConfirmation_eq vote_keys_def)

lemma distinct_addConfirmation:
  "distinct (vote_keys db) \<Longrightarrow> distinct (vote_keys (snd (addConfirmation rp db incidentId user v)))"
  by (simp add: vote_keys_addConfirmation)

lemma distinct_addConfirmations:
  "distinct (vote_keys db) \<Longrightarrow> distinct (vote_keys (addConfirmations db calls))"
proof (induction calls arbitrary: db)
  case Nil
  then show ?case by simp
next
  case (Cons call calls)
  obtain rp incidentId user v where call: "call = (rp, incidentId, user, v)"
    by (cases call)
  from Cons.prems have "distinct (vote_keys (snd (addConfirmation rp db incidentId user v)))"
    by (rule distinct_addConfirmation)
  then show ?case
    unfolding call addConfirmations.simps by (rule Cons.IH)
qed

lemma distinct_keys_filter:
  "distinct (map key rows) \<Longrightarrow> length (filter (\<lambda>r. key r = k) rows) \<le> 1"
proof (induction rows)
  case Nil
  then show ?case by simp
next
  case (Cons r rows)
  show ?case
  proof (cases "key r = k")
    case True
    with Cons.prems have "k \<notin> key ` set rows" by auto
    then have "filter (\<lambda>r. key r = k) rows = []"
      by (auto simp add: filter_empty_conv)
    with True show ?thesis by simp
  next
    case False
    with Cons show ?thesis by simp
  qed
qed

lemma votes_of_keys:
  "votes_of db incidentId user =
     filter (\<lambda>r. (incident_id r, user_telegram_id r) = (incidentId, user)) (tbl_confirmations db)"
  by (simp add: votes_of_def)

lemma votes_of_at_most_one:
  assumes "distinct (vote_keys db)"
  shows "length (votes_of db incidentId user) \<le> 1"
  unfolding votes_of_keys
  using assms unfolding vote_keys_def by (rule distinct_keys_filter)

lemma votes_of_nonempty: "votes_of db incidentId user \<noteq> [] \<longleftrightarrow> (incidentId, user) \<in> set (vote_keys db)"
  by (auto simp add: votes_of_def vote_keys_def filter_empty_conv image_iff)

text \<open>
  Claim C7. Whatever calls of \<^verbatim>\<open>addConfirmation\<close> are made, and however often, on a table
  that holds at most one row per incident and voter, the table still holds at most one row
  for every such pair; a call repeated after one that succeeded meets the uniqueness
  violation (code 23505), returns false and inserts nothing, as does any call for a pair
  that has a row; and every failure of the insert, the client's exception included, comes
  back as the value false.
\<close>

theorem addConfirmation_once:
  assumes "distinct (vote_keys db)"
  shows "distinct (vote_keys (addConfirmations db calls))
    \<and> length (votes_of (addConfirmations db calls) incidentId user) \<le> 1
    \<and> (fst (addConfirmation rp db incidentId user v) \<longrightarrow>
         addConfirmation rp' (snd (addConfirmation rp db incidentId user v)) incidentId user v' =
           (False, snd (addConfirmation rp db incidentId user v)))
    \<and> (fst (addConfirmation rp db incidentId user v) \<longrightarrow>
         insert_confirmation Accepted (snd (addConfirmation rp db incidentId user v))
           \<lparr> incident_id = incidentId, user_telegram_id = user, vote = v' \<rparr> =
           Inl (PostgrestError ''23505''))
    \<and> (votes_of db incidentId user \<noteq> [] \<longrightarrow>
         addConfirmation rp db incidentId user v = (False, db))
    \<and> (\<forall>e. insert_confirmation rp db
               \<lparr> incident_id = incidentId, user_telegram_id = user, vote = v \<rparr> = Inl e \<longrightarrow>
             addConfirmation rp db incidentId user v = (False, db))"
proof -
  have d: "distinct (vote_keys (addConfirmations db calls))"
    using assms by (rule distinct_addConfirmations)
  moreover have "length (votes_of (addConfirmations db calls) incidentId user) \<le> 1"
    using d by (rule votes_of_at_most_one)
  moreover have "fst (addConfirmation rp db incidentId user v) \<longrightarrow>
         addConfirmation rp' (snd (addConfirmation rp db incidentId user v)) incidentId user v' =
           (False, snd (addConfirmation rp db incidentId user v))"
  proof
    assume "fst (addConfirmation rp db incidentId user v)"
    then have "(incidentId, user) \<in> set (vote_keys (snd (addConfirmation rp db incidentId user v)))"
      by (simp add: addConfirmation_eq vote_keys_def split: if_splits)
    then show "addConfirmation rp' (snd (addConfirmation rp db incidentId user v)) incidentId user v' =
           (False, snd (addConfirmation rp db incidentId user v))"
      by (simp add: addConfirmation_eq [of rp'])
  qed
  moreover have "fst (addConfirmation rp db incidentId user v) \<longrightarrow>
         insert_confirmation Accepted (snd (addConfirmation rp db incidentId user v))
           \<lparr> incident_id = incidentId, user_telegram_id = user, vote = v' \<rparr> =
           Inl (PostgrestError ''23505'')"
    by (simp add: addConfirmation_eq insert_confirmation_def split: if_splits)
  moreover have "votes_of db incidentId user \<noteq> [] \<longrightarrow>
         addConfirmation rp db incidentId user v = (False, db)"
    by (simp add: votes_of_nonempty addConfirmation_eq)
  moreover have "\<forall>e. insert_confirmation rp db
               \<lparr> incident_id = incidentId, user_telegram_id = user, vote = v \<rparr> = Inl e \<longrightarrow>
             addConfirmation rp db incidentId user v = (False, db)"
    by (auto simp add: addConfirmation_def split: store_error.splits)
  ultimately show ?thesis by blast
qed

theorem addConfirmation_once_witness:
  "distinct (vote_keys db1)
   \<and> fst (addConfirmation Accepted db1 ''inc-1'' ''1002'' confirm)
   \<and> addConfirmation Accepted (snd (addConfirmation Accepted db1 ''inc-1'' ''1002'' confirm))
        ''inc-1'' ''1002'' confirm =
       (False, snd (addConfirmation Accepted db1 ''inc-1'' ''1002'' confirm))
   \<and> length (votes_of (addConfirmations db1
        [(Accepted, ''inc-1'', ''1002'', confirm), (Accepted, ''inc-1'', ''1002'', confirm),
         (Thrown, ''inc-1'', ''1002'', deny), (Accepted, ''inc-1'', ''1002'', deny)])
        ''inc-1'' ''1002'') \<le> 1"
proof -
  have h: "distinct (vote_keys db1)"
    by (simp add: vote_keys_def db1_def db0_def)
  have f: "fst (addConfirmation Accepted db1 ''inc-1'' ''1002'' confirm)"
    by (simp add: addConfirmation_def insert_confirmation_def db1_def db0_def)
  from addConfirmation_once [OF h, of _ "''inc-1''" "''1002''" Accepted confirm Accepted confirm] f h
  show ?thesis by blast
qed

lemma updateUserTrustScore_eq:
  "updateUserTrustScore rd wr db telegramId delta =
     (case tbl_users db telegramId of
        Some u \<Rightarrow>
          if rd = Accepted \<and> wr = Accepted
          then (True, db\<lparr> tbl_users := (tbl_users db)(telegramId \<mapsto>
                          u\<lparr> trust_score := max 0 (min 100 (trust_score u + delta)) \<rparr>) \<rparr>)
          else (False, db)
      | None \<Rightarrow> (False, db))"
  by (cases rd; cases wr; cases "tbl_users db telegramId")
    (simp_all add: updateUserTrustScore_def Let_def)

text \<open>
  Claim C8. For every user, every delta, positive or negative, and every reply of the
  store: when \<^verbatim>\<open>updateUserTrustScore\<close> writes, the stored score is the old score plus
  delta clamped to the range 0 to 100; when it does not, the store is unchanged; so scores
  that all lie in that range before the call all lie in it after.
\<close>

theorem updateUserTrustScore_clamped:
  "(fst (updateUserTrustScore rd wr db telegramId delta) \<longrightarrow>
      (\<exists>u. tbl_users db telegramId = Some u \<and>
           tbl_users (snd (updateUserTrustScore rd wr db telegramId delta)) telegramId =
             Some (u\<lparr> trust_score := max 0 (min 100 (trust_score u + delta)) \<rparr>)) \<and>
      (\<exists>u'. tbl_users (snd (updateUserTrustScore rd wr db telegramId delta)) telegramId = Some u'
            \<and> 0 \<le> trust_score u' \<and> trust_score u' \<le> 100))
   \<and> (\<not> fst (updateUserTrustScore rd wr db telegramId delta) \<longrightarrow>
        snd (updateUserTrustScore rd wr db telegramId delta) = db)
   \<and> ((\<forall>u\<in>ran (tbl_users db). score_in_range u) \<longrightarrow>
        (\<forall>u\<in>ran (tbl_users (snd (updateUserTrustScore rd wr db telegramId delta))).
           score_in_range u))"
proof (cases "tbl_users db telegramId")
  case None
  then show ?thesis by (simp add: updateUserTrustScore_eq)
next
  case (Some u)
  show ?thesis
  proof (cases "rd = Accepted \<and> wr = Accepted")
    case False
    with Some show ?thesis by (auto simp add: updateUserTrustScore_eq)
  next
    case True
    let ?u' = "u\<lparr> trust_score := max 0 (min 100 (trust_score u + delta)) \<rparr>"
    have r: "score_in_range ?u'" by (simp add: score_in_range_def)
    have "ran ((tbl_users db)(telegramId \<mapsto> ?u')) \<subseteq> insert ?u' (ran (tbl_users db))"
      by (auto simp add: ran_def split: if_splits)
    with r have "(\<forall>u\<in>ran (tbl_users db). score_in_range u) \<longrightarrow>
        (\<forall>u\<in>ran ((tbl_users db)(telegramId \<mapsto> ?u')). score_in_range u)"
      by blast
    with Some True show ?thesis
      by (simp add: updateUserTrustScore_eq)
  qed
qed

theorem updateUserTrustScore_clamped_witness:
  "fst (updateUserTrustScore Accepted Accepted db0 ''1001'' 70)
   \<and> map_option trust_score
        (tbl_users (snd (updateUserTrustScore Accepted Accepted db0 ''1001'' 70)) ''1001'') = Some 100
   \<and> fst (updateUserTrustScore Accepted Accepted db0 ''1001'' (- 70))
   \<and> map_option trust_score
        (tbl_users (snd (updateUserTrustScore Accepted Accepted db0 ''1001'' (- 70))) ''1001'') = Some 0
   \<and> map_option score_in_range
        (tbl_users (snd (updateUserTrustScore Accepted Accepted db0 ''1001'' 70)) ''1002'') = Some True
   \<and> \<not> fst (updateUserTrustScore Accepted Thrown db0 ''1001'' 70)
   \<and> snd (updateUserTrustScore Accepted Thrown db0 ''1001'' 70) = db0"
proof -
  have u: "tbl_users db0 ''1001'' = Some user0"
    by (simp add: db0_def)
  have f: "fst (updateUserTrustScore Accepted Accepted db0 ''1001'' delta)" for delta
    by (simp add: updateUserTrustScore_def Let_def u)
  have n: "\<not> fst (updateUserTrustScore Accepted Thrown db0 ''1001'' 70)"
    by (simp add: updateUserTrustScore_def Let_def u)
  have r: "\<forall>u\<in>ran (tbl_users db0). score_in_range u"
    by (auto simp add: db0_def ran_def score_in_range_def user0_def split: if_splits)
  note t = updateUserTrustScore_clamped [of Accepted Accepted db0 "''1001''" 70]
  from t f u have a: "map_option trust_score
        (tbl_users (snd (updateUserTrustScore Accepted Accepted db0 ''1001'' 70)) ''1001'') = Some 100"
    by (auto simp add: user0_def)
  have "tbl_users (snd (updateUserTrustScore Accepted Accepted db0 ''1001'' 70)) ''1002'' = Some user0"
    by (simp add: updateUserTrustScore_def Let_def u) (simp add: db0_def)
  moreover from t r
  have "\<forall>u\<in>ran (tbl_users (snd (updateUserTrustScore Accepted Accepted db0 ''1001'' 70))).
         score_in_range u"
    by blast
  ultimately have c: "map_option score_in_range
        (tbl_users (snd (updateUserTrustScore Accepted Accepted db0 ''1001'' 70)) ''1002'') = Some True"
    by (auto simp add: ran_def)
  from updateUserTrustScore_clamped [of Accepted Accepted db0 "''1001''" "- 70"] f u
  have b: "map_option trust_score
        (tbl_users (snd (updateUserTrustScore Accepted Accepted db0 ''1001'' (- 70))) ''1001'') = Some 0"
    by (auto simp add: user0_def)
  from updateUserTrustScore_clamped [of Accepted Thrown db0 "''1001''" 70] n
  have d: "snd (updateUserTrustScore Accepted Thrown db0 ''1001'' 70) = db0"
    by blast
  from a b c d f n show ?thesis by blast
qed

lemma or_default_zero: "or_default (Some c) 0 = c"
  by (simp add: or_default_def)

lemma filter_map_update:
  "filter (\<lambda>r. id r = k) (map (\<lambda>r. if id r = k then f r else r) rows) =
     map f (filter (\<lambda>r. id r = k) rows)"
  if "\<And>r. id (f r) = id r"
  using that by (induction rows) auto

lemma filter_map_others:
  "filter (\<lambda>r. id r \<noteq> k) (map (\<lambda>r. if id r = k then f r else r) rows) =
     filter (\<lambda>r. id r \<noteq> k) rows"
  if "\<And>r. id (f r) = id r"
  using that by (induction rows) auto

text \<open>
  Claim C10, as amended. For every incident and every delta, when the store answers the
  read with the incident's row and accepts the write, \<^verbatim>\<open>updateIncidentConfirmations\<close>
  returns true and sets the count to max(0, current + delta), which is never negative, and
  the status to verified when that count is at least 2 and to pending otherwise, whatever
  the status was; the other rows stay as they were. When the write is refused or throws, or
  the read throws, it returns false and changes nothing.
\<close>

theorem updateIncidentConfirmations_rule:
  assumes "filter (\<lambda>x. id x = incidentId) (tbl_incidents db) = [r]"
  shows "fst (updateIncidentConfirmations Accepted Accepted db incidentId delta)
    \<and> filter (\<lambda>x. id x = incidentId)
         (tbl_incidents (snd (updateIncidentConfirmations Accepted Accepted db incidentId delta))) =
        [r\<lparr> confirmations := max 0 (confirmations r + delta),
            status := (if max 0 (confirmations r + delta) \<ge> 2 then verified else pending) \<rparr>]
    \<and> filter (\<lambda>x. id x \<noteq> incidentId)
         (tbl_incidents (snd (updateIncidentConfirmations Accepted Accepted db incidentId delta))) =
        filter (\<lambda>x. id x \<noteq> incidentId) (tbl_incidents db)
    \<and> 0 \<le> max 0 (confirmations r + delta)
    \<and> (rd = Thrown \<or> wr \<noteq> Accepted \<longrightarrow>
         updateIncidentConfirmations rd wr db incidentId delta = (False, db))"
proof -
  have "rd = Thrown \<or> wr \<noteq> Accepted \<longrightarrow>
      updateIncidentConfirmations rd wr db incidentId delta = (False, db)"
    by (cases rd; cases wr) (simp_all add: updateIncidentConfirmations_def Let_def)
  with assms show ?thesis
    by (simp add: updateIncidentConfirmations_def Let_def or_default_zero filter_map_update
        filter_map_others)
qed

theorem updateIncidentConfirmations_rule_witness:
  "filter (\<lambda>x. id x = ''inc-1'') (tbl_incidents (db0\<lparr> tbl_incidents := [flood1] \<rparr>)) = [flood1]
   \<and> map confirmations (tbl_incidents (snd (updateIncidentConfirmations Accepted Accepted
        (db0\<lparr> tbl_incidents := [flood1] \<rparr>) ''inc-1'' (- 1)))) = [1]
   \<and> map status (tbl_incidents (snd (updateIncidentConfirmations Accepted Accepted
        (db0\<lparr> tbl_incidents := [flood1] \<rparr>) ''inc-1'' (- 1)))) = [pending]
   \<and> confirmations flood1 = 2 \<and> status flood1 = verified"
proof -
  have h: "filter (\<lambda>x. id x = ''inc-1'') (tbl_incidents (db0\<lparr> tbl_incidents := [flood1] \<rparr>)) = [flood1]"
    by (simp add: flood1_def)
  have all: "filter (\<lambda>x. id x = ''inc-1'') rows = rows" if "map id rows = [''inc-1'']" for rows :: "Incident list"
    using that by (cases rows) auto
  have ids: "map id (tbl_incidents (snd (updateIncidentConfirmations Accepted Accepted
        (db0\<lparr> tbl_incidents := [flood1] \<rparr>) ''inc-1'' (- 1)))) = [''inc-1'']"
    by (simp add: updateIncidentConfirmations_def Let_def flood1_def)
  note t = updateIncidentConfirmations_rule [OF h, of "- 1"]
  have "tbl_incidents (snd (updateIncidentConfirmations Accepted Accepted
        (db0\<lparr> tbl_incidents := [flood1] \<rparr>) ''inc-1'' (- 1))) =
      [flood1\<lparr> confirmations := max 0 (confirmations flood1 + - 1),
          status := (if max 0 (confirmations flood1 + - 1) \<ge> 2 then verified else pending) \<rparr>]"
    using conjunct1 [OF conjunct2 [OF t]] all [OF ids] by simp
  then show ?thesis
    using h by (simp add: flood1_def)
qed

theorem updateIncidentConfirmations_counterexample:
  "map confirmations (tbl_incidents db_verified) = [2]
   \<and> map status (tbl_incidents db_verified) = [verified]
   \<and> fst (updateIncidentConfirmations (Rejected ''57014'') Accepted db_verified ''inc-1'' 1)
   \<and> map confirmations (tbl_incidents (snd (updateIncidentConfirmations
         (Rejected ''57014'') Accepted db_verified ''inc-1'' 1))) = [1]
   \<and> map status (tbl_incidents (snd (updateIncidentConfirmations
         (Rejected ''57014'') Accepted db_verified ''inc-1'' 1))) = [pending]
   \<and> map confirmations (tbl_incidents (snd (updateIncidentConfirmations
         Accepted (Rejected ''57014'') db_verified ''inc-1'' 1))) = [2]
   \<and> max 0 (2 + 1) = (3 :: int)"
  by (simp add: updateIncidentConfirmations_def Let_def or_default_def db_verified_def
      flood1_def)

lemma tbl_incidents_addConfirmation:
  "tbl_incidents (snd (addConfirmation rp db incidentId user v)) = tbl_incidents db"
  by (simp add: addConfirmation_eq)

lemma on_confirm_eq:
  "on_confirm rp st incidentId user =
     (st\<lparr> store := snd (addConfirmation rp (store st) incidentId user confirm) \<rparr>,
      [VoteReply (fst (addConfirmation rp (store st) incidentId user confirm))])"
  by (simp add: on_confirm_def split_beta)

lemma tbl_incidents_on_confirm:
  "tbl_incidents (store (fst (on_confirm rp st incidentId user))) = tbl_incidents (store st)"
  by (simp add: on_confirm_eq tbl_incidents_addConfirmation)

lemma tbl_incidents_confirm_votes:
  "tbl_incidents (store (confirm_votes st votes)) = tbl_incidents (store st)"
proof (induction votes arbitrary: st)
  case Nil
  show ?case by simp
next
  case (Cons vote votes)
  obtain rp incidentId user where vote: "vote = (rp, incidentId, user)"
    by (cases vote)
  show ?case
    unfolding vote confirm_votes.simps Cons.IH by (rule tbl_incidents_on_confirm)
qed

lemma votes_change_no_incident:
  "tbl_incidents (store (confirm_votes st votes)) = tbl_incidents (store st)
   \<and> tbl_incidents (store (fst (on_confirm rp st incidentId user))) = tbl_incidents (store st)
   \<and> (snd (on_confirm rp st incidentId user) = [VoteReply True] \<longrightarrow>
        tbl_confirmations (store (fst (on_confirm rp st incidentId user))) =
          tbl_confirmations (store st) @
            [\<lparr> incident_id = incidentId, user_telegram_id = user, vote = confirm \<rparr>])
   \<and> (snd (on_confirm rp st incidentId user) \<noteq> [VoteReply True] \<longrightarrow>
        fst (on_confirm rp st incidentId user) = st)"
  by (simp add: tbl_incidents_confirm_votes tbl_incidents_on_confirm)
    (simp add: on_confirm_eq addConfirmation_eq)

text \<open>
  Claim C2. Two reporters confirm a pending incident that has no confirmation, and the
  store accepts both votes: both are answered as confirmed and both rows are recorded, yet
  the incident keeps the count 0 and the status pending, where the claim has the count 2
  and the status verified. \<^verbatim>\<open>updateIncidentConfirmations\<close>, called with 1 after each
  vote, gives exactly that count and status; the handler does not call it.
\<close>

theorem confirm_votes_not_counted:
  "snd (on_confirm Accepted st1 ''inc-1'' ''1001'') = [VoteReply True]
   \<and> snd (on_confirm Accepted (fst (on_confirm Accepted st1 ''inc-1'' ''1001'')) ''inc-1'' ''1002'')
       = [VoteReply True]
   \<and> map user_telegram_id (tbl_confirmations (store (confirm_votes st1
        [(Accepted, ''inc-1'', ''1001''), (Accepted, ''inc-1'', ''1002'')]))) = [''1001'', ''1002'']
   \<and> map confirmations (tbl_incidents (store (confirm_votes st1
        [(Accepted, ''inc-1'', ''1001''), (Accepted, ''inc-1'', ''1002'')]))) = [0]
   \<and> map status (tbl_incidents (store (confirm_votes st1
        [(Accepted, ''inc-1'', ''1001''), (Accepted, ''inc-1'', ''1002'')]))) = [pending]
   \<and> map confirmations (tbl_incidents (snd (updateIncidentConfirmations Accepted Accepted
        (snd (updateIncidentConfirmations Accepted Accepted db1 ''inc-1'' 1)) ''inc-1'' 1))) = [2]
   \<and> map status (tbl_incidents (snd (updateIncidentConfirmations Accepted Accepted
        (snd (updateIncidentConfirmations Accepted Accepted db1 ''inc-1'' 1)) ''inc-1'' 1))) =
       [verified]"
  by (simp add: on_confirm_def addConfirmation_def insert_confirmation_def st1_def db1_def
      db0_def flood1_def updateIncidentConfirmations_def Let_def or_default_def)

section \<open>The report intake: lemmas and theorems\<close>

lemma Coordinates_eta: "\<lparr> latitude = latitude l, longitude = longitude l \<rparr> = l"
  by (cases l) simp

lemma inserted_row_fields:
  "IncidentData.type (inserted_row i x) = IncidentData.type x"
  "location (inserted_row i x) = location x"
  "status (inserted_row i x) = status x"
  "confirmations (inserted_row i x) = confirmations x"
  "reporterId (inserted_row i x) = reporterId x"
  "expiresAt (inserted_row i x) = expiresAt x"
  "IncidentData.createdAt (inserted_row i x) = IncidentData.createdAt x"
  "id (inserted_row i x) = i"
  by (simp_all add: inserted_row_def Coordinates_eta)

lemma incidentData_fields:
  "IncidentData.type (incidentData w u p l) = PendingReport.type p"
  "location (incidentData w u p l) = l"
  "status (incidentData w u p l) = pending"
  "confirmations (incidentData w u p l) = 0"
  "reporterId (incidentData w u p l) = u"
  "expiresAt (incidentData w u p l) = clock1 w + 14400000"
  "IncidentData.createdAt (incidentData w u p l) = clock2 w"
  by (simp_all add: incidentData_def Coordinates_eta)

lemma tbl_incidents_createIncident:
  "tbl_incidents (snd (createIncident rp i d x)) =
     (if rp = Accepted then tbl_incidents d @ [inserted_row i x] else tbl_incidents d)"
  by (cases rp) (simp_all add: createIncident_def)

lemma tbl_users_createIncident: "tbl_users (snd (createIncident rp i d x)) = tbl_users d"
  by (cases rp) (simp_all add: createIncident_def)

lemma tbl_incidents_incrementUserReports:
  "tbl_incidents (snd (incrementUserReports rpc rd wr d u)) = tbl_incidents d"
  by (cases rpc; cases rd; cases wr; cases "tbl_users d u")
    (simp_all add: incrementUserReports_def increment_reports_def)

lemma trust_incrementUserReports:
  "map_option trust_score (tbl_users (snd (incrementUserReports rpc rd wr d u)) k) =
     map_option trust_score (tbl_users d k)"
  by (cases rpc; cases rd; cases wr; cases "tbl_users d u")
    (simp_all add: incrementUserReports_def increment_reports_def)

lemma count_incrementUserReports:
  "tbl_users d u = Some x \<Longrightarrow>
     tbl_users (snd (incrementUserReports Accepted rd wr d u)) u =
       Some (x\<lparr> reports_count := reports_count x + 1 \<rparr>)"
  by (simp add: incrementUserReports_def increment_reports_def)

lemma store_handleLocation_finalize:
  assumes "finalizes st user p"
  shows "store (fst (handleLocation w st user (Some l))) =
     snd (incrementUserReports (rpc_reply w) (select_reply w) (update_reply w)
            (snd (createIncident (insert_reply w) (new_id w) (store st) (incidentData w user p l)))
            user)"
  using assms
  by (simp add: finalizes_def handleLocation_def Let_def split_beta split: option.splits)

lemma handleLocation_other:
  assumes "\<not> (\<exists>p. finalizes st user p)"
  shows "fst (handleLocation w st user ml) = st"
  using assms
  by (auto simp add: finalizes_def handleLocation_def Let_def split: option.splits)

lemma handleLocation_None: "fst (handleLocation w st user None) = st"
  by (auto simp add: handleLocation_def Let_def split: option.splits)

lemma tbl_incidents_handleLocation:
  assumes "finalizes st user p"
  shows "tbl_incidents (store (fst (handleLocation w st user (Some l)))) =
     (if insert_reply w = Accepted
      then tbl_incidents (store st) @ [inserted_row (new_id w) (incidentData w user p l)]
      else tbl_incidents (store st))"
  by (simp add: store_handleLocation_finalize [OF assms] tbl_incidents_incrementUserReports
      tbl_incidents_createIncident)

lemma trust_handleLocation:
  "map_option trust_score (tbl_users (store (fst (handleLocation w st user ml))) k) =
     map_option trust_score (tbl_users (store st) k)"
proof (cases "\<exists>p. finalizes st user p")
  case False
  then show ?thesis by (simp add: handleLocation_other)
next
  case True
  then obtain p where p: "finalizes st user p" ..
  show ?thesis
  proof (cases ml)
    case None
    then show ?thesis by (simp add: handleLocation_None)
  next
    case (Some l)
    then show ?thesis
      by (simp add: store_handleLocation_finalize [OF p] trust_incrementUserReports
          tbl_users_createIncident)
  qed
qed

lemma post_report_accepted:
  assumes "u \<noteq> []" "la \<noteq> 0" "lo \<noteq> 0" "insert_reply w = Accepted"
  shows "post_report w d (Some u) (Some t) descr (Some la) (Some lo) sev =
     (Created (new_id w),
      d\<lparr> tbl_incidents := tbl_incidents d @
         [inserted_row (new_id w)
            \<lparr> IncidentData.type = t, description = descr,
              location = \<lparr> latitude = la, longitude = lo \<rparr>, address = Some [],
              severity = or_default sev 3, status = pending, reporterId = u,
              reporterUsername = Some ''native_app_user'', confirmations = 0, mediaUrl = None,
              expiresAt = clock2 w + 60 * 60 * 1000, createdAt = clock1 w \<rparr>] \<rparr>)"
  using assms by (simp add: post_report_def createIncident_def inserted_row_def)

lemma tbl_users_post_report:
  "tbl_users (snd (post_report w d user ty descr lat lon sev)) = tbl_users d"
  by (simp add: post_report_def split_beta tbl_users_createIncident
      split: option.splits)

text \<open>
  Claim C1, as amended. Two reports that reach the step that finalises on a location, and
  whose inserts the store accepts, add one incident row each, whatever their types, places
  and times: each row has the type and the location of its own report, confirmation
  count 0 and status pending, and the rows that were there are unchanged.
\<close>

theorem two_reports_two_rows:
  assumes "finalizes st u1 p1" "insert_reply w1 = Accepted"
    and "finalizes (fst (handleLocation w1 st u1 (Some l1))) u2 p2" "insert_reply w2 = Accepted"
  shows "\<exists>r1 r2.
      tbl_incidents (store (fst (handleLocation w2 (fst (handleLocation w1 st u1 (Some l1))) u2
        (Some l2)))) = tbl_incidents (store st) @ [r1, r2]
      \<and> IncidentData.type r1 = PendingReport.type p1 \<and> IncidentData.type r2 = PendingReport.type p2
      \<and> location r1 = l1 \<and> location r2 = l2
      \<and> confirmations r1 = 0 \<and> confirmations r2 = 0
      \<and> status r1 = pending \<and> status r2 = pending"
proof -
  let ?r1 = "inserted_row (new_id w1) (incidentData w1 u1 p1 l1)"
  let ?r2 = "inserted_row (new_id w2) (incidentData w2 u2 p2 l2)"
  have "tbl_incidents (store (fst (handleLocation w2 (fst (handleLocation w1 st u1 (Some l1))) u2
        (Some l2)))) = tbl_incidents (store st) @ [?r1, ?r2]"
    by (simp add: tbl_incidents_handleLocation [OF assms(3)]
        tbl_incidents_handleLocation [OF assms(1)] assms(2,4))
  then show ?thesis
    by (intro exI [of _ ?r1] exI [of _ ?r2]) (simp add: inserted_row_fields incidentData_fields)
qed

lemma finalizes_st0: "finalizes st0 ''1001'' (flood_report ''1001'')"
  by (simp add: finalizes_def st0_def flood_report_def)

lemma adminStates_handleLocation:
  "adminStates (fst (handleLocation w st user ml)) = adminStates st"
  by (simp add: handleLocation_def Let_def split_beta split: option.splits)

lemma pendingReports_handleLocation:
  "k \<noteq> user \<Longrightarrow> pendingReports (fst (handleLocation w st user ml)) k = pendingReports st k"
  by (simp add: handleLocation_def Let_def split_beta split: option.splits)

lemma finalizes_handleLocation:
  "k \<noteq> user \<Longrightarrow> finalizes (fst (handleLocation w st user ml)) k p = finalizes st k p"
  by (simp add: finalizes_def adminStates_handleLocation pendingReports_handleLocation)

lemma finalizes_st_one: "finalizes st_one ''1002'' (flood_report ''1002'')"
  unfolding st_one_def
  by (simp add: finalizes_handleLocation) (simp add: finalizes_def st0_def flood_report_def)

theorem two_reports_two_rows_witness:
  "finalizes st0 ''1001'' (flood_report ''1001'') \<and> insert_reply world1 = Accepted
   \<and> finalizes (fst (handleLocation world1 st0 ''1001'' (Some loc0))) ''1002'' (flood_report ''1002'')
   \<and> insert_reply world2 = Accepted
   \<and> length (tbl_incidents (store (fst (handleLocation world2
        (fst (handleLocation world1 st0 ''1001'' (Some loc0))) ''1002'' (Some loc0))))) = 2"
proof -
  have a: "insert_reply world1 = Accepted" "insert_reply world2 = Accepted"
    by (simp_all add: world1_def world2_def)
  have b: "finalizes (fst (handleLocation world1 st0 ''1001'' (Some loc0))) ''1002''
      (flood_report ''1002'')"
    using finalizes_st_one by (simp add: st_one_def)
  have e: "tbl_incidents (store st0) = []"
    by (simp add: st0_def db0_def)
  from two_reports_two_rows [OF finalizes_st0 a(1) b a(2), of loc0] e
  have "length (tbl_incidents (store (fst (handleLocation world2
        (fst (handleLocation world1 st0 ''1001'' (Some loc0))) ''1002'' (Some loc0))))) = 2"
    by auto
  with finalizes_st0 a b show ?thesis by blast
qed

lemma world_replies:
  "insert_reply world1 = Accepted" "new_id world1 = ''inc-1''"
  "insert_reply world2 = Accepted" "new_id world2 = ''inc-2''"
  "rpc_reply world1 = Accepted"
  by (simp_all add: world1_def world2_def)

lemma rows_st_one:
  "tbl_incidents (store st_one) =
     [inserted_row ''inc-1'' (incidentData world1 ''1001'' (flood_report ''1001'') loc0)]"
  unfolding st_one_def tbl_incidents_handleLocation [OF finalizes_st0]
  by (simp add: world_replies st0_def db0_def)

lemma rows_st_two:
  "tbl_incidents (store st_two) =
     [inserted_row ''inc-1'' (incidentData world1 ''1001'' (flood_report ''1001'') loc0),
      inserted_row ''inc-2'' (incidentData world2 ''1002'' (flood_report ''1002'') loc0)]"
  unfolding st_two_def tbl_incidents_handleLocation [OF finalizes_st_one]
  by (simp add: world_replies rows_st_one)

theorem two_reports_counterexample:
  "map IncidentData.type (tbl_incidents (store st_two)) = [flooding, flooding]
   \<and> map location (tbl_incidents (store st_two)) = [loc0, loc0]
   \<and> map IncidentData.createdAt (tbl_incidents (store st_two)) = [1000000, 1180000]
   \<and> map reporterId (tbl_incidents (store st_two)) = [''1001'', ''1002'']
   \<and> map confirmations (tbl_incidents (store st_two)) = [0, 0]
   \<and> map status (tbl_incidents (store st_two)) = [pending, pending]"
  by (simp add: rows_st_two inserted_row_fields incidentData_fields)
    (simp add: world1_def world2_def flood_report_def)

text \<open>
  Claim C3, as amended. An incident that the Telegram flow persists is pending, expires
  4 hours after the first reading of the clock and is created at the second; an incident
  that the REST route persists is pending, is created at the first reading and expires
  60 minutes after the second.
\<close>

theorem report_expiry:
  "(finalizes st user p \<and> insert_reply w = Accepted \<longrightarrow>
      (\<exists>row. tbl_incidents (store (fst (handleLocation w st user (Some l)))) =
               tbl_incidents (store st) @ [row]
             \<and> status row = pending
             \<and> expiresAt row = clock1 w + 4 * 60 * 60 * 1000
             \<and> IncidentData.createdAt row = clock2 w))
   \<and> (u \<noteq> [] \<and> la \<noteq> 0 \<and> lo \<noteq> 0 \<and> insert_reply w = Accepted \<longrightarrow>
      (\<exists>row. tbl_incidents (snd (post_report w d (Some u) (Some t) descr (Some la) (Some lo) sev)) =
               tbl_incidents d @ [row]
             \<and> status row = pending
             \<and> expiresAt row = clock2 w + 60 * 60 * 1000
             \<and> IncidentData.createdAt row = clock1 w))"
proof (intro conjI impI)
  assume a: "finalizes st user p \<and> insert_reply w = Accepted"
  then have f: "finalizes st user p" and i: "insert_reply w = Accepted" by simp_all
  let ?row = "inserted_row (new_id w) (incidentData w user p l)"
  have "tbl_incidents (store (fst (handleLocation w st user (Some l)))) =
          tbl_incidents (store st) @ [?row]"
    by (simp add: tbl_incidents_handleLocation [OF f] i)
  then show "\<exists>row. tbl_incidents (store (fst (handleLocation w st user (Some l)))) =
               tbl_incidents (store st) @ [row]
             \<and> status row = pending
             \<and> expiresAt row = clock1 w + 4 * 60 * 60 * 1000
             \<and> IncidentData.createdAt row = clock2 w"
    by (intro exI [of _ ?row]) (simp add: inserted_row_fields incidentData_fields)
next
  assume a: "u \<noteq> [] \<and> la \<noteq> 0 \<and> lo \<noteq> 0 \<and> insert_reply w = Accepted"
  then have b: "u \<noteq> []" "la \<noteq> 0" "lo \<noteq> 0" "insert_reply w = Accepted" by simp_all
  show "\<exists>row. tbl_incidents (snd (post_report w d (Some u) (Some t) descr (Some la) (Some lo) sev)) =
               tbl_incidents d @ [row]
             \<and> status row = pending
             \<and> expiresAt row = clock2 w + 60 * 60 * 1000
             \<and> IncidentData.createdAt row = clock1 w"
    by (intro exI [of _ "inserted_row (new_id w)
            \<lparr> IncidentData.type = t, description = descr,
              location = \<lparr> latitude = la, longitude = lo \<rparr>, address = Some [],
              severity = or_default sev 3, status = pending, reporterId = u,
              reporterUsername = Some ''native_app_user'', confirmations = 0, mediaUrl = None,
              expiresAt = clock2 w + 60 * 60 * 1000, createdAt = clock1 w \<rparr>"])
      (simp add: post_report_accepted [OF b] inserted_row_fields)
qed

theorem report_expiry_witness:
  "finalizes st0 ''1001'' (flood_report ''1001'') \<and> insert_reply world1 = Accepted
   \<and> map status (tbl_incidents (store st_one)) = [pending]
   \<and> map expiresAt (tbl_incidents (store st_one)) = [15400000]
   \<and> map IncidentData.createdAt (tbl_incidents (store st_one)) = [1000000]
   \<and> ''1001'' \<noteq> [] \<and> (3.848 :: real) \<noteq> 0 \<and> (11.5021 :: real) \<noteq> 0
   \<and> map expiresAt (tbl_incidents (snd (post_report world1 db0 (Some ''1001'') (Some flooding)
        None (Some 3.848) (Some 11.5021) None))) = [4600000]
   \<and> map IncidentData.createdAt (tbl_incidents (snd (post_report world1 db0 (Some ''1001'')
        (Some flooding) None (Some 3.848) (Some 11.5021) None))) = [1000000]"
proof -
  note t = report_expiry [of st0 "''1001''" "flood_report ''1001''" world1 loc0 "''1001''"
      "3.848" "11.5021" db0 flooding None None]
  have e: "tbl_incidents (store st0) = []" "tbl_incidents db0 = []"
    by (simp_all add: st0_def db0_def)
  have c: "clock1 world1 = 1000000" "clock2 world1 = 1000000"
    by (simp_all add: world1_def)
  from t finalizes_st0 world_replies(1) e c show ?thesis
    unfolding st_one_def by auto
qed

theorem report_expiry_counterexample:
  "map expiresAt (tbl_incidents (store st_one)) = [15400000]
   \<and> map IncidentData.createdAt (tbl_incidents (store st_one)) = [1000000]
   \<and> map status (tbl_incidents (store st_one)) = [pending]
   \<and> (15400000 :: int) \<noteq> 1000000 + 60 * 60 * 1000"
  by (simp add: rows_st_one inserted_row_fields incidentData_fields) (simp add: world1_def)

lemma report_changes_no_trust_score:
  "map_option trust_score (tbl_users (store (fst (handleLocation w st user ml))) k) =
     map_option trust_score (tbl_users (store st) k)
   \<and> (finalizes st user p \<and> rpc_reply w = Accepted \<and> tbl_users (store st) user = Some x \<longrightarrow>
        tbl_users (store (fst (handleLocation w st user (Some l)))) user =
          Some (x\<lparr> reports_count := reports_count x + 1 \<rparr>))
   \<and> tbl_users (snd (post_report w d u ty descr lat lon sev)) = tbl_users d"
proof (intro conjI impI)
  show "map_option trust_score (tbl_users (store (fst (handleLocation w st user ml))) k) =
     map_option trust_score (tbl_users (store st) k)"
    by (rule trust_handleLocation)
next
  assume a: "finalizes st user p \<and> rpc_reply w = Accepted \<and> tbl_users (store st) user = Some x"
  then have f: "finalizes st user p" by simp
  from a show "tbl_users (store (fst (handleLocation w st user (Some l)))) user =
          Some (x\<lparr> reports_count := reports_count x + 1 \<rparr>)"
    by (simp add: store_handleLocation_finalize [OF f] count_incrementUserReports
        tbl_users_createIncident)
next
  show "tbl_users (snd (post_report w d u ty descr lat lon sev)) = tbl_users d"
    by (rule tbl_users_post_report)
qed

lemma store_st_one:
  "store st_one =
     snd (incrementUserReports Accepted Accepted Accepted
            (snd (createIncident Accepted ''inc-1'' db0
                    (incidentData world1 ''1001'' (flood_report ''1001'') loc0))) ''1001'')"
  unfolding st_one_def store_handleLocation_finalize [OF finalizes_st0]
  by (simp add: world1_def st0_def)

lemma users_st_one: "tbl_users (store st_one) ''1001'' = Some (user0\<lparr> reports_count := 1 \<rparr>)"
  by (simp add: store_st_one incrementUserReports_def increment_reports_def createIncident_def
      db0_def user0_def)

text \<open>
  Claim C4. A reporter with the score 50 and no report finalises a flooding report and the
  store accepts every request: the incident is persisted, the acknowledgement that
  announces three trust points is sent and the count of reports goes from 0 to 1, yet the
  score is still 50, where the claim has it raised. \<^verbatim>\<open>updateUserTrustScore\<close>, called with
  3, gives 53; the handler does not call it.
\<close>

theorem report_leaves_trust_score:
  "map reporterId (tbl_incidents (store st_one)) = [''1001'']
   \<and> fst (snd (handleLocation world1 st0 ''1001'' (Some loc0))) = [ReportReceived]
   \<and> map_option trust_score (tbl_users (store st0) ''1001'') = Some 50
   \<and> map_option trust_score (tbl_users (store st_one) ''1001'') = Some 50
   \<and> map_option reports_count (tbl_users (store st0) ''1001'') = Some 0
   \<and> map_option reports_count (tbl_users (store st_one) ''1001'') = Some 1
   \<and> map_option trust_score
        (tbl_users (snd (updateUserTrustScore Accepted Accepted (store st_one) ''1001'' 3))
           ''1001'') = Some 53"
proof -
  have "tbl_users (store st0) ''1001'' = Some user0"
    by (simp add: st0_def db0_def)
  moreover have "fst (snd (handleLocation world1 st0 ''1001'' (Some loc0))) = [ReportReceived]"
    by (simp add: handleLocation_def Let_def split_beta createIncident_def world1_def st0_def
        flood_report_def)
  moreover have "map_option trust_score
        (tbl_users (snd (updateUserTrustScore Accepted Accepted (store st_one) ''1001'' 3))
           ''1001'') = Some 53"
    by (simp add: updateUserTrustScore_def Let_def users_st_one user0_def)
  ultimately show ?thesis
    by (simp add: rows_st_one inserted_row_fields incidentData_fields users_st_one user0_def)
qed

lemma adminStates_handleRouteLocation:
  "adminStates (fst (handleRouteLocation st user l req)) = adminStates st"
  by (simp add: handleRouteLocation_def split: RouteStep.splits)

lemma adminStates_on_location:
  "adminStates (fst (on_location w st user ml)) = adminStates st"
  by (simp add: on_location_def adminStates_handleRouteLocation adminStates_handleLocation
      split: option.splits)

lemma on_admin_broadcast_eq: "on_admin_broadcast isAdmin st user = (st, [BroadcastHint])"
  by (simp add: on_admin_broadcast_def admin_broadcast_first_def)

lemma on_reject_eq:
  "on_reject rp st incidentId user =
     (st\<lparr> store := snd (addConfirmation rp (store st) incidentId user deny) \<rparr>,
      [VoteReply (fst (addConfirmation rp (store st) incidentId user deny))])"
  by (simp add: on_reject_def split_beta)

lemma reachable_adminStates: "reachable st \<Longrightarrow> adminStates st = Map.empty"
proof (induction rule: reachable.induct)
  case (start d)
  show ?case by simp
next
  case (location_message st w user message_location)
  then show ?case by (simp add: adminStates_on_location)
next
  case (confirm_button st rp incidentId user)
  then show ?case by (simp add: on_confirm_eq)
next
  case (reject_button st rp incidentId user)
  then show ?case by (simp add: on_reject_eq)
next
  case (admin_broadcast_button st isAdmin user)
  then show ?case by (simp add: on_admin_broadcast_eq)
next
  case (elsewhere st reports routes fuel d)
  then show ?case by simp
qed

text \<open>
  Claim C9. In every state of the service, a location message from a user with no pending
  route, no pending fuel request and no pending report waiting for its location creates
  no incident and changes nothing: it is answered with the nearby incidents within 5 km.
\<close>

theorem ambient_location:
  assumes "reachable st"
    and "pendingRoutes st user = None" "pendingFuel st user = None"
    and "\<not> (\<exists>p. pendingReports st user = Some p \<and> PendingReport.step p = awaiting_location)"
  shows "on_location w st user (Some l) =
           (st, [NearbyIncidents (getNearbyIncidents (nearby_reply w) (store st) l 5)], Returned)
    \<and> tbl_incidents (store (fst (on_location w st user (Some l)))) = tbl_incidents (store st)
    \<and> fst (on_location w st user ml) = st"
proof -
  from assms(1) have "adminStates st user = None"
    by (simp add: reachable_adminStates)
  with assms(2-4) have a: "on_location w st user (Some x) =
           (st, [NearbyIncidents (getNearbyIncidents (nearby_reply w) (store st) x 5)], Returned)"
    for x
    by (auto simp add: on_location_def handleLocation_def showNearbyIncidents_def Let_def
        split: option.splits)
  have "fst (on_location w st user None) = st"
    by (simp add: on_location_def)
  with a have "fst (on_location w st user ml) = st"
    by (cases ml) simp_all
  with a [of l] show ?thesis
    by simp
qed

theorem ambient_location_witness:
  "reachable st_pressed
   \<and> pendingRoutes st_pressed ''9001'' = None \<and> pendingFuel st_pressed ''9001'' = None
   \<and> pendingReports st_pressed ''9001'' = None
   \<and> on_location world1 st_pressed ''9001'' (Some loc0) =
       (st_pressed, [NearbyIncidents [flood1\<lparr> confirmations := 0, status := pending \<rparr>]],
        Returned)"
proof -
  have e: "st_pressed = st1"
    by (simp add: st_pressed_def on_admin_broadcast_eq)
  have "reachable st1"
    unfolding st1_def by (rule reachable.start)
  then have r: "reachable st_pressed"
    unfolding st_pressed_def by (rule reachable.admin_broadcast_button)
  have h: "pendingRoutes st_pressed ''9001'' = None" "pendingFuel st_pressed ''9001'' = None"
    "pendingReports st_pressed ''9001'' = None"
    by (simp_all add: e st1_def)
  from h(3) have n: "\<not> (\<exists>p. pendingReports st_pressed ''9001'' = Some p \<and>
      PendingReport.step p = awaiting_location)"
    by simp
  have g: "getNearbyIncidents (nearby_reply world1) (store st_pressed) loc0 5 =
      [flood1\<lparr> confirmations := 0, status := pending \<rparr>]"
    by (simp add: e getNearbyIncidents_def world1_def st1_def db1_def db0_def flood1_def
        loc0_def)
  from ambient_location [OF r h(1,2) n, of world1 loc0] r h g show ?thesis by simp
qed

end
